theory Spec2Isabelle
  imports Main
begin

section \<open>Tokens, locations, errors\<close>

text \<open>
  Embedding of \<^verbatim>\<open>Lib/fontTools/feaLib/lexer.py\<close>: the class \<^verbatim>\<open>Lexer\<close> (one text buffer)
  and the class \<^verbatim>\<open>IncludingLexer\<close> (a stack of lexers following \<^verbatim>\<open>include\<close> statements).
  A token is the triple \<^verbatim>\<open>(token_type, token, location)\<close> of the source; a location is
  \<^verbatim>\<open>(filename, line, column)\<close>. Python's exceptions are values of the type \<open>error\<close>,
  returned on the left of a sum together with the lexer state at the point of the raise.
  A name cannot end with an underscore here, so \<^verbatim>\<open>next_\<close> is \<open>next_raw\<close>, the two
  \<^verbatim>\<open>__next__\<close> methods are \<open>Lexer_next\<close> and \<open>IncludingLexer_next\<close>, and \<^verbatim>\<open>scan_over_\<close>,
  \<^verbatim>\<open>scan_until_\<close>, \<^verbatim>\<open>make_lexer_\<close> and the constants lose their last underscore. The text
  of a source is a list of characters; the lexer only compares characters with those of
  its ASCII classes, so any other character takes the last branch of \<^verbatim>\<open>next_\<close>.
\<close>

datatype token_type =
  NUMBER | STRING | NAME | FILENAME | GLYPHCLASS | CID | SYMBOL | COMMENT | NEWLINE

datatype token_value = IntVal int | StrVal string | NoneVal

type_synonym location = "string \<times> int \<times> int"

type_synonym token = "token_type \<times> token_value \<times> location"

datatype error =
  FeatureLibError string location
  | StopIteration
  | TypeError
  | ValueError
  | UnicodeDecodeError

datatype mode = MODE_NORMAL | MODE_FILENAME

text \<open>
  The attributes of a \<^verbatim>\<open>Lexer\<close> object, named as in the source without the trailing
  underscore (\<^verbatim>\<open>pos_\<close> is \<open>pos\<close>, and so on). \<^verbatim>\<open>text_length_\<close> is assigned once, in
  \<^verbatim>\<open>__init__\<close>, as \<^verbatim>\<open>len(text)\<close> and \<^verbatim>\<open>text_\<close> is never assigned again, so it is the
  derived value \<open>text_length\<close> below rather than a field. Positions and lengths are
  natural numbers; line and column numbers are integers, and the column is computed by
  integer subtraction as in the source.
\<close>

record lexer =
  filename :: string
  line :: int
  pos :: nat
  line_start :: nat
  "text" :: string
  mode :: mode

definition text_length :: "lexer \<Rightarrow> nat" where
  "text_length s = length (text s)"

definition Lexer :: "string \<Rightarrow> string \<Rightarrow> lexer" where
  "Lexer txt fname =
     \<lparr>filename = fname, line = 1, pos = 0, line_start = 0, text = txt, mode = MODE_NORMAL\<rparr>"

subsection \<open>Character classes\<close>

definition CHAR_WHITESPACE :: string where
  "CHAR_WHITESPACE = [CHR '' '', CHR 0x09]"

definition CHAR_NEWLINE :: string where
  "CHAR_NEWLINE = [CHR 0x0D, CHR 0x0A]"

definition CHAR_SYMBOL :: string where
  "CHAR_SYMBOL = '';:-+'' @ [CHR 0x27] @ ''{}[]<>()=''"

definition CHAR_DIGIT :: string where
  "CHAR_DIGIT = ''0123456789''"

definition CHAR_HEXDIGIT :: string where
  "CHAR_HEXDIGIT = ''0123456789ABCDEFabcdef''"

definition CHAR_LETTER :: string where
  "CHAR_LETTER = ''ABCDEFGHIJKLMNOPQRSTUVWXYZabcdefghijklmnopqrstuvwxyz''"

definition CHAR_NAME_START :: string where
  "CHAR_NAME_START = CHAR_LETTER @ ''_+*:.^~!'' @ [CHR 0x5C]"

definition CHAR_NAME_CONTINUATION :: string where
  "CHAR_NAME_CONTINUATION = CHAR_LETTER @ CHAR_DIGIT @ ''_.+*:^~!''"

text \<open>
  \<^verbatim>\<open>RE_GLYPHCLASS = re.compile(r"^[A-Za-z_0-9.]+$")\<close>, used with \<^verbatim>\<open>match\<close>: one or more
  characters of the class, up to the end of the string or up to a final line feed
  (Python's \<^verbatim>\<open>$\<close> also matches just before a trailing line feed).
\<close>

definition RE_GLYPHCLASS_match :: "string \<Rightarrow> bool" where
  "RE_GLYPHCLASS_match g =
     (let core = (if g = [] then g else if last g = CHR 0x0A then butlast g else g)
      in (if core = [] then False
          else list_all (\<lambda>c. c \<in> set (CHAR_LETTER @ ''_'' @ CHAR_DIGIT @ ''.'')) core))"

subsection \<open>Python primitives used by the lexer\<close>

text \<open>The slice \<^verbatim>\<open>text[a:b]\<close> for non-negative \<^verbatim>\<open>a\<close> and \<^verbatim>\<open>b\<close>.\<close>

definition slice :: "string \<Rightarrow> nat \<Rightarrow> nat \<Rightarrow> string" where
  "slice txt a b = take (b - a) (drop a txt)"

text \<open>
  \<^verbatim>\<open>b and (next_char in chars)\<close> where \<^verbatim>\<open>next_char\<close> is a one-character string or
  \<^verbatim>\<open>None\<close>. Python evaluates the membership test only when \<^verbatim>\<open>b\<close> holds, and the test
  \<^verbatim>\<open>None in "..."\<close> raises \<^verbatim>\<open>TypeError\<close> (the left operand of \<^verbatim>\<open>in\<close> on a string must be
  a string).
\<close>

definition and_in :: "bool \<Rightarrow> char option \<Rightarrow> string \<Rightarrow> error + bool" where
  "and_in b next_char chars =
     (if b then (case next_char of None \<Rightarrow> Inl TypeError | Some c \<Rightarrow> Inr (c \<in> set chars))
      else Inr False)"

definition digit_value :: "char \<Rightarrow> nat option" where
  "digit_value c =
     (let n = (of_char c :: nat)
      in if 48 \<le> n \<and> n \<le> 57 then Some (n - 48)
         else if 97 \<le> n \<and> n \<le> 102 then Some (n - 87)
         else if 65 \<le> n \<and> n \<le> 70 then Some (n - 55)
         else None)"

definition valid_digit :: "nat \<Rightarrow> char \<Rightarrow> bool" where
  "valid_digit base c = (case digit_value c of None \<Rightarrow> False | Some d \<Rightarrow> d < base)"

definition digits_value :: "nat \<Rightarrow> string \<Rightarrow> int" where
  "digits_value base ds =
     foldl (\<lambda>a c. a * int base + int (case digit_value c of None \<Rightarrow> 0 | Some d \<Rightarrow> d)) 0 ds"

text \<open>
  \<^verbatim>\<open>int(s, base)\<close> on the shapes of string the lexer passes: an optional sign, for base
  16 an optional \<^verbatim>\<open>0x\<close> or \<^verbatim>\<open>0X\<close> prefix, then digits of the base. With no digit left,
  or a character that is not a digit of the base, Python raises \<^verbatim>\<open>ValueError\<close>. (Python
  also accepts surrounding white space and single underscores between digits; the slices
  the lexer converts hold neither.)
\<close>

definition py_int :: "string \<Rightarrow> nat \<Rightarrow> error + int" where
  "py_int s base =
     (let neg = (take 1 s = ''-'');
          r = (if take 1 s = ''-'' then drop 1 s else if take 1 s = ''+'' then drop 1 s else s);
          ds = (if base = 16 then (if take 2 r = ''0x'' then drop 2 r
                                   else if take 2 r = ''0X'' then drop 2 r else r)
                else r)
      in if ds = [] then Inl ValueError
         else if list_all (valid_digit base) ds
         then Inr (if neg then - digits_value base ds else digits_value base ds)
         else Inl ValueError)"

subsection \<open>The scanning loops\<close>

text \<open>
  \<^verbatim>\<open>scan_over_\<close>: advance \<^verbatim>\<open>p\<close> while it is inside the text and on a character of
  \<^verbatim>\<open>valid\<close>; \<^verbatim>\<open>scan_until_\<close>: advance while inside the text and on a character not in
  \<^verbatim>\<open>stop_at\<close>. Both then store \<^verbatim>\<open>p\<close> in \<^verbatim>\<open>pos_\<close>.
\<close>

function scan_over_loop :: "string \<Rightarrow> string \<Rightarrow> nat \<Rightarrow> nat" where
  "scan_over_loop valid txt p =
     (if p < length txt then (if txt ! p \<in> set valid then scan_over_loop valid txt (Suc p) else p)
      else p)"
  by pat_completeness auto
termination
  by (relation "measure (\<lambda>(valid, txt, p). length txt - p)") auto

function scan_until_loop :: "string \<Rightarrow> string \<Rightarrow> nat \<Rightarrow> nat" where
  "scan_until_loop stop_at txt p =
     (if p < length txt then (if txt ! p \<in> set stop_at then p else scan_until_loop stop_at txt (Suc p))
      else p)"
  by pat_completeness auto
termination
  by (relation "measure (\<lambda>(stop_at, txt, p). length txt - p)") auto

declare scan_over_loop.simps [simp del]

declare scan_until_loop.simps [simp del]

definition scan_over :: "string \<Rightarrow> lexer \<Rightarrow> lexer" where
  "scan_over valid s = s\<lparr>pos := scan_over_loop valid (text s) (pos s)\<rparr>"

definition scan_until :: "string \<Rightarrow> lexer \<Rightarrow> lexer" where
  "scan_until stop_at s = s\<lparr>pos := scan_until_loop stop_at (text s) (pos s)\<rparr>"


subsection \<open>One raw token: \<^verbatim>\<open>Lexer.next_\<close>\<close>

text \<open>The messages of the source that hold a quote character.\<close>

definition MSG_EXPECTED_LPAREN :: string where
  "MSG_EXPECTED_LPAREN = ''Expected '' @ [CHR 0x27] @ ''('' @ [CHR 0x27] @ '' before file name''"

definition MSG_EXPECTED_RPAREN :: string where
  "MSG_EXPECTED_RPAREN = ''Expected '' @ [CHR 0x27] @ '')'' @ [CHR 0x27] @ '' after file name''"

definition MSG_UNTERMINATED_STRING :: string where
  "MSG_UNTERMINATED_STRING =
     ''Expected '' @ [CHR 0x27, CHR 0x22, CHR 0x27] @ '' to terminate string''"

definition MSG_EXPECTED_SEMICOLON :: string where
  "MSG_EXPECTED_SEMICOLON = ''Expected '' @ [CHR 0x27] @ '';'' @ [CHR 0x27]"

text \<open>
  \<^verbatim>\<open>next_\<close> is \<open>next_raw\<close> below. Its branches that take several steps are separate
  definitions: the file name of an include statement (source lines 81 to 92), a glyph class
  (98 to 112), a string (134 to 142); \<open>scan_normal\<close> is the chain of tests of lines 94 to
  119 and \<open>scan_number\<close> the chain of lines 120 to 144, in the order of the source.
\<close>

definition scan_filename :: "lexer \<Rightarrow> nat \<Rightarrow> location \<Rightarrow> char \<Rightarrow> (error + token) \<times> lexer" where
  "scan_filename s start location cur_char =
     (if cur_char = CHR ''('' then
        (let s1 = scan_until '')'' s
         in if pos s1 < length (text s) then
              (if text s ! pos s1 = CHR '')'' then
                 (let s2 = s1\<lparr>pos := pos s1 + 1, mode := MODE_NORMAL\<rparr>
                  in (Inr (FILENAME, StrVal (slice (text s) (start + 1) (pos s2 - 1)), location), s2))
               else (Inl (FeatureLibError MSG_EXPECTED_RPAREN location), s1))
            else (Inl (FeatureLibError MSG_EXPECTED_RPAREN location), s1))
      else (Inl (FeatureLibError MSG_EXPECTED_LPAREN location), s))"

definition scan_glyphclass :: "lexer \<Rightarrow> nat \<Rightarrow> location \<Rightarrow> (error + token) \<times> lexer" where
  "scan_glyphclass s start location =
     (let s1 = scan_over CHAR_NAME_CONTINUATION (s\<lparr>pos := pos s + 1\<rparr>);
          glyphclass = slice (text s) (start + 1) (pos s1)
      in if length glyphclass < 1 then
           (Inl (FeatureLibError ''Expected glyph class name'' location), s1)
         else if length glyphclass > 30 then
           (Inl (FeatureLibError ''Glyph class names must not be longer than 30 characters''
                   location), s1)
         else if RE_GLYPHCLASS_match glyphclass then
           (Inr (GLYPHCLASS, StrVal glyphclass, location), s1)
         else
           (Inl (FeatureLibError
                  ''Glyph class names must consist of letters, digits, underscore, or period''
                  location), s1))"

definition scan_string :: "lexer \<Rightarrow> nat \<Rightarrow> location \<Rightarrow> (error + token) \<times> lexer" where
  "scan_string s start location =
     (let s1 = scan_until ([CHR 0x22] @ CHAR_NEWLINE) (s\<lparr>pos := pos s + 1\<rparr>)
      in if pos s1 < text_length s1 then
           (if text s1 ! pos s1 = CHR 0x22 then
              (let s2 = s1\<lparr>pos := pos s1 + 1\<rparr>
               in (Inr (STRING, StrVal (slice (text s) (start + 1) (pos s2 - 1)), location), s2))
            else (Inl (FeatureLibError MSG_UNTERMINATED_STRING location), s1))
         else (Inl (FeatureLibError MSG_UNTERMINATED_STRING location), s1))"

definition to_number :: "string \<Rightarrow> nat \<Rightarrow> location \<Rightarrow> lexer \<Rightarrow> (error + token) \<times> lexer" where
  "to_number digits base location s =
     (case py_int digits base of
        Inl e \<Rightarrow> (Inl e, s)
      | Inr n \<Rightarrow> (Inr (NUMBER, IntVal n, location), s))"

definition scan_number ::
  "lexer \<Rightarrow> nat \<Rightarrow> location \<Rightarrow> char \<Rightarrow> char option \<Rightarrow> (error + token) \<times> lexer" where
  "scan_number s start location cur_char next_char =
     (case and_in (cur_char = CHR ''0'') next_char ''xX'' of
        Inl e \<Rightarrow> (Inl e, s)
      | Inr True \<Rightarrow>
          (let s1 = scan_over CHAR_HEXDIGIT (s\<lparr>pos := pos s + 2\<rparr>)
           in to_number (slice (text s) start (pos s1)) 16 location s1)
      | Inr False \<Rightarrow>
          if cur_char \<in> set CHAR_DIGIT then
            (let s1 = scan_over CHAR_DIGIT s
             in to_number (slice (text s) start (pos s1)) 10 location s1)
          else
            (case and_in (cur_char = CHR ''-'') next_char CHAR_DIGIT of
               Inl e \<Rightarrow> (Inl e, s)
             | Inr True \<Rightarrow>
                 (let s1 = scan_over CHAR_DIGIT (s\<lparr>pos := pos s + 1\<rparr>)
                  in to_number (slice (text s) start (pos s1)) 10 location s1)
             | Inr False \<Rightarrow>
                 if cur_char \<in> set CHAR_SYMBOL then
                   (Inr (SYMBOL, StrVal [cur_char], location), s\<lparr>pos := pos s + 1\<rparr>)
                 else if cur_char = CHR 0x22 then scan_string s start location
                 else
                   (Inl (FeatureLibError
                          (''Unexpected character: '' @ [CHR 0x27, cur_char, CHR 0x27])
                          location), s)))"

definition scan_normal ::
  "lexer \<Rightarrow> nat \<Rightarrow> location \<Rightarrow> char \<Rightarrow> char option \<Rightarrow> (error + token) \<times> lexer" where
  "scan_normal s start location cur_char next_char =
     (case and_in (cur_char = CHR 0x5C) next_char CHAR_DIGIT of
        Inl e \<Rightarrow> (Inl e, s)
      | Inr True \<Rightarrow>
          (let s1 = scan_over CHAR_DIGIT (s\<lparr>pos := pos s + 1\<rparr>)
           in (case py_int (slice (text s) (start + 1) (pos s1)) 10 of
                 Inl e \<Rightarrow> (Inl e, s1)
               | Inr n \<Rightarrow> (Inr (CID, IntVal n, location), s1)))
      | Inr False \<Rightarrow>
          if cur_char = CHR ''@'' then scan_glyphclass s start location
          else if cur_char \<in> set CHAR_NAME_START then
            (let s1 = scan_over CHAR_NAME_CONTINUATION (s\<lparr>pos := pos s + 1\<rparr>);
                 tok = slice (text s) start (pos s1);
                 s2 = (if tok = ''include'' then s1\<lparr>mode := MODE_FILENAME\<rparr> else s1)
             in (Inr (NAME, StrVal tok, location), s2))
          else scan_number s start location cur_char next_char)"

definition scan_token :: "lexer \<Rightarrow> (error + token) \<times> lexer" where
  "scan_token s =
     (let column = int (pos s) - int (line_start s) + 1;
          location = (filename s, line s, column);
          start = pos s;
          limit = length (text s)
      in if start \<ge> limit then (Inl StopIteration, s)
         else
           (let cur_char = text s ! start;
                next_char = (if start + 1 < limit then Some (text s ! (start + 1)) else None)
            in if cur_char = CHR 0x0A then
                 (Inr (NEWLINE, NoneVal, location),
                  s\<lparr>pos := pos s + 1, line := line s + 1, line_start := pos s + 1\<rparr>)
               else if cur_char = CHR 0x0D then
                 (let p = pos s + (if next_char = Some (CHR 0x0A) then 2 else 1)
                  in (Inr (NEWLINE, NoneVal, location),
                      s\<lparr>pos := p, line := line s + 1, line_start := p\<rparr>))
               else if cur_char = CHR ''#'' then
                 (let s1 = scan_until CHAR_NEWLINE s
                  in (Inr (COMMENT, StrVal (slice (text s) start (pos s1)), location), s1))
               else if mode s = MODE_FILENAME then scan_filename s start location cur_char
               else scan_normal s start location cur_char next_char))"

text \<open>
  \<^verbatim>\<open>next_\<close>: skip blanks and tabs (line 56), then scan one token from the position
  reached (\<open>scan_token\<close>, lines 57 to 144).
\<close>

definition next_raw :: "lexer \<Rightarrow> (error + token) \<times> lexer" where
  "next_raw s0 = scan_token (scan_over CHAR_WHITESPACE s0)"

subsection \<open>Every raw token consumes text\<close>

text \<open>
  The scanning loops never move backwards and never leave the text; a call of \<open>next_raw\<close>
  keeps the text and the file name, never moves the position backwards, and when it returns
  a token the position has moved forward and is still inside the text (\<open>advanced\<close>).
\<close>

lemma scan_over_loop_ge: "p \<le> scan_over_loop valid t p"
  by (induction valid t p rule: scan_over_loop.induct)
     (subst scan_over_loop.simps, auto dest: Suc_leD)

lemma scan_until_loop_ge: "p \<le> scan_until_loop stop_at t p"
  by (induction stop_at t p rule: scan_until_loop.induct)
     (subst scan_until_loop.simps, auto dest: Suc_leD)

lemma scan_over_loop_le: "p \<le> length t \<Longrightarrow> scan_over_loop valid t p \<le> length t"
  by (induction valid t p rule: scan_over_loop.induct)
     (subst scan_over_loop.simps, auto)

lemma scan_until_loop_le: "p \<le> length t \<Longrightarrow> scan_until_loop stop_at t p \<le> length t"
  by (induction stop_at t p rule: scan_until_loop.induct)
     (subst scan_until_loop.simps, auto)

lemma scan_over_loop_step:
  "p < length t \<Longrightarrow> t ! p \<in> set valid \<Longrightarrow> p < scan_over_loop valid t p"
  using scan_over_loop_ge [of "Suc p" valid t]
  by (subst scan_over_loop.simps) auto

lemma scan_until_loop_step:
  "p < length t \<Longrightarrow> t ! p \<notin> set stop_at \<Longrightarrow> p < scan_until_loop stop_at t p"
  using scan_until_loop_ge [of "Suc p" stop_at t]
  by (subst scan_until_loop.simps) auto

lemma scan_over_loop_mono [simp]:
  "q \<le> p \<Longrightarrow> q \<le> scan_over_loop valid t p"
  "q < p \<Longrightarrow> q < scan_over_loop valid t p"
  "q \<le> p \<Longrightarrow> q < Suc (scan_over_loop valid t p)"
  "q \<le> p \<Longrightarrow> q \<le> Suc (scan_over_loop valid t p)"
  using scan_over_loop_ge [of p valid t] by simp_all

lemma scan_until_loop_mono [simp]:
  "q \<le> p \<Longrightarrow> q \<le> scan_until_loop stop_at t p"
  "q < p \<Longrightarrow> q < scan_until_loop stop_at t p"
  "q \<le> p \<Longrightarrow> q < Suc (scan_until_loop stop_at t p)"
  "q \<le> p \<Longrightarrow> q \<le> Suc (scan_until_loop stop_at t p)"
  using scan_until_loop_ge [of p stop_at t] by simp_all

lemma scan_over_loop_bound [simp]:
  "p \<le> length t \<Longrightarrow> scan_over_loop valid t p \<le> length t"
  by (rule scan_over_loop_le)

lemma scan_until_loop_bound [simp]:
  "p \<le> length t \<Longrightarrow> scan_until_loop stop_at t p \<le> length t"
  by (rule scan_until_loop_le)

lemma and_in_True: "and_in b nc cs = Inr True \<Longrightarrow> b \<and> (\<exists>c. nc = Some c \<and> c \<in> set cs)"
  by (auto simp: and_in_def split: if_splits option.splits)

lemma scan_over_fields [simp]:
  "text (scan_over valid s) = text s" "filename (scan_over valid s) = filename s"
  "line (scan_over valid s) = line s" "line_start (scan_over valid s) = line_start s"
  "mode (scan_over valid s) = mode s"
  "pos (scan_over valid s) = scan_over_loop valid (text s) (pos s)"
  by (simp_all add: scan_over_def)

lemma scan_until_fields [simp]:
  "text (scan_until valid s) = text s" "filename (scan_until valid s) = filename s"
  "line (scan_until valid s) = line s" "line_start (scan_until valid s) = line_start s"
  "mode (scan_until valid s) = mode s"
  "pos (scan_until valid s) = scan_until_loop valid (text s) (pos s)"
  by (simp_all add: scan_until_def)

definition advanced :: "lexer \<Rightarrow> (error + token) \<times> lexer \<Rightarrow> bool" where
  "advanced s rs =
     (text (snd rs) = text s \<and> filename (snd rs) = filename s \<and> pos s \<le> pos (snd rs) \<and>
      (case fst rs of
         Inl e \<Rightarrow> True
       | Inr t \<Rightarrow> pos s < pos (snd rs) \<and> pos (snd rs) \<le> length (text s)))"

lemma to_number_advanced:
  "text s1 = text s \<Longrightarrow> filename s1 = filename s \<Longrightarrow> pos s < pos s1 \<Longrightarrow>
   pos s1 \<le> length (text s) \<Longrightarrow> advanced s (to_number ds base location s1)"
  by (simp add: advanced_def to_number_def split: sum.splits)

lemma scan_filename_advanced: "advanced s (scan_filename s start location c)"
  by (simp add: advanced_def scan_filename_def Let_def Suc_leI)

lemma scan_glyphclass_advanced:
  "pos s < length (text s) \<Longrightarrow> advanced s (scan_glyphclass s start location)"
  by (simp add: advanced_def scan_glyphclass_def Let_def Suc_leI)

lemma scan_string_advanced:
  "pos s < length (text s) \<Longrightarrow> advanced s (scan_string s start location)"
  by (simp add: advanced_def scan_string_def Let_def Suc_leI text_length_def)

lemma scan_number_advanced:
  assumes "pos s < length (text s)" "c = text s ! pos s"
    and nc: "nc = None \<or> Suc (pos s) < length (text s)"
  shows "advanced s (scan_number s start location c nc)"
proof -
  have d: "c \<in> set CHAR_DIGIT \<Longrightarrow> pos s < scan_over_loop CHAR_DIGIT (text s) (pos s)"
    using assms by (simp add: scan_over_loop_step)
  have h: "and_in b nc cs = Inr True \<Longrightarrow> Suc (Suc (pos s)) \<le> length (text s)" for b cs
    using nc by (auto dest!: and_in_True)
  show ?thesis
    unfolding scan_number_def Let_def
    using assms(1)
    by (simp add: d h to_number_advanced scan_string_advanced Suc_leI less_imp_le
             split: sum.splits bool.splits)
       (simp add: advanced_def Suc_leI)
qed

lemma scan_normal_advanced:
  assumes "pos s < length (text s)" "c = text s ! pos s"
    and nc: "nc = None \<or> Suc (pos s) < length (text s)"
  shows "advanced s (scan_normal s start location c nc)"
  unfolding scan_normal_def Let_def
  using assms(1)
  by (simp add: scan_glyphclass_advanced scan_number_advanced [OF assms]
           split: sum.splits bool.splits)
     (simp add: advanced_def Suc_leI)

lemma scan_token_advanced: "advanced s (scan_token s)"
proof -
  have c: "pos s < length (text s) \<Longrightarrow> text s ! pos s = CHR ''#'' \<Longrightarrow>
           pos s < scan_until_loop CHAR_NEWLINE (text s) (pos s)"
    by (rule scan_until_loop_step) (simp_all add: CHAR_NEWLINE_def)
  show ?thesis
    unfolding scan_token_def Let_def
    by (simp add: scan_filename_advanced scan_normal_advanced)
       (simp add: advanced_def c Suc_leI less_imp_le)
qed

lemma advanced_trans:
  "pos s \<le> pos w \<Longrightarrow> text w = text s \<Longrightarrow> filename w = filename s \<Longrightarrow> advanced w rs \<Longrightarrow>
   advanced s rs"
  by (auto simp: advanced_def split: sum.splits)

lemma next_raw_advanced: "advanced s (next_raw s)"
  unfolding next_raw_def
  by (rule advanced_trans [OF _ _ _ scan_token_advanced]) simp_all

lemma next_raw_token:
  assumes "next_raw s = (Inr t, s')"
  shows "text s' = text s" "filename s' = filename s" "pos s < pos s'" "pos s' \<le> length (text s)"
  using next_raw_advanced [of s] assms by (simp_all add: advanced_def)

subsection \<open>The public \<^verbatim>\<open>Lexer.__next__\<close>\<close>

text \<open>
  \<^verbatim>\<open>__next__\<close> (and \<^verbatim>\<open>next\<close>, which calls it): call \<^verbatim>\<open>next_\<close> until the token type is
  not in \<^verbatim>\<open>{COMMENT, NEWLINE}\<close>, and return that token. An exception of \<^verbatim>\<open>next_\<close>
  (\<^verbatim>\<open>StopIteration\<close> included) leaves the loop. The loop ends because every token
  consumes text.
\<close>

function Lexer_next :: "lexer \<Rightarrow> (error + token) \<times> lexer" where
  "Lexer_next s =
     (case next_raw s of
        (Inl e, s') \<Rightarrow> (Inl e, s')
      | (Inr (token_type, tok, location), s') \<Rightarrow>
          if token_type \<in> {COMMENT, NEWLINE} then Lexer_next s'
          else (Inr (token_type, tok, location), s'))"
  by pat_completeness auto
termination
proof (relation "measure (\<lambda>s. length (text s) - pos s)")
  show "wf (measure (\<lambda>s. length (text s) - pos s))" by simp
next
  fix s :: lexer and x1 s' x2 token_type x22 tok location
  assume "(x1, s') = next_raw s" "x1 = Inr x2"
  then have "next_raw s = (Inr x2, s')" by simp
  from next_raw_token [OF this]
  show "(s', s) \<in> measure (\<lambda>s. length (text s) - pos s)" by simp
qed

declare Lexer_next.simps [simp del]

lemma Lexer_next_advanced: "advanced s (Lexer_next s)"
proof (induction s rule: Lexer_next.induct)
  case (1 s)
  obtain r s' where n: "next_raw s = (r, s')" by (cases "next_raw s")
  have a: "advanced s (r, s')" using next_raw_advanced [of s] n by simp
  show ?case
  proof (cases r)
    case (Inl e)
    then show ?thesis using a n by (subst Lexer_next.simps) simp
  next
    case (Inr t)
    obtain tt tok loc where t: "t = (tt, tok, loc)" by (cases t)
    show ?thesis
    proof (cases "tt \<in> {COMMENT, NEWLINE}")
      case True
      have "advanced s' (Lexer_next s')"
        using "1.IH" [OF n [symmetric] Inr t [symmetric] refl True] .
      moreover have "pos s \<le> pos s'" "text s' = text s" "filename s' = filename s"
        using a by (simp_all add: advanced_def)
      ultimately have "advanced s (Lexer_next s')" by (rule advanced_trans [rotated 3])
      then show ?thesis using n Inr t True by (subst Lexer_next.simps) simp
    next
      case False
      then show ?thesis using a n Inr t by (subst Lexer_next.simps) simp
    qed
  qed
qed

lemma Lexer_next_token:
  assumes "Lexer_next s = (Inr t, s')"
  shows "text s' = text s" "filename s' = filename s" "pos s < pos s'" "pos s' \<le> length (text s)"
  using Lexer_next_advanced [of s] assms by (simp_all add: advanced_def)

section \<open>The including lexer\<close>

subsection \<open>Paths and files\<close>

text \<open>
  \<^verbatim>\<open>os.path.split\<close> and \<^verbatim>\<open>os.path.join\<close> of the Python library, in their POSIX
  versions: \<^verbatim>\<open>split\<close> cuts after the last slash and strips the trailing slashes of the head
  unless the head is only slashes; \<^verbatim>\<open>join\<close> of two parts restarts at an absolute second
  part and otherwise puts one slash between the parts when the first is not empty and does
  not end with one.
\<close>

definition os_path_split :: "string \<Rightarrow> string \<times> string" where
  "os_path_split p =
     (let i = length p - length (takeWhile (\<lambda>c. c \<noteq> CHR ''/'') (rev p));
          head = take i p;
          tail = drop i p
      in (if head = [] then head
          else if head = replicate (length head) (CHR ''/'') then head
          else rev (dropWhile (\<lambda>c. c = CHR ''/'') (rev head)),
          tail))"

definition os_path_join :: "string \<Rightarrow> string \<Rightarrow> string" where
  "os_path_join a b =
     (if take 1 b = ''/'' then b
      else if a = [] then a @ b
      else if last a = CHR ''/'' then a @ b
      else a @ ''/'' @ b)"

text \<open>
  The file system is a parameter: what \<^verbatim>\<open>codecs.open(filename, "rb", "utf-8")\<close> followed
  by \<^verbatim>\<open>read()\<close> gives for a path: the decoded text, an \<^verbatim>\<open>IOError\<close> with its message, or
  a \<^verbatim>\<open>UnicodeDecodeError\<close> for bytes that are not UTF-8. \<^verbatim>\<open>make_lexer_\<close> catches only
  \<^verbatim>\<open>IOError\<close>, which it turns into a \<^verbatim>\<open>FeatureLibError\<close> at the location it was given.
\<close>

datatype io_result = FileText string | IOError string | DecodeError

definition make_lexer :: "(string \<Rightarrow> io_result) \<Rightarrow> string \<Rightarrow> location \<Rightarrow> error + lexer" where
  "make_lexer fs fname location =
     (case fs fname of
        FileText txt \<Rightarrow> Inr (Lexer txt fname)
      | IOError err \<Rightarrow> Inl (FeatureLibError err location)
      | DecodeError \<Rightarrow> Inl UnicodeDecodeError)"

text \<open>
  The state of an \<^verbatim>\<open>IncludingLexer\<close> is its list \<^verbatim>\<open>lexers_\<close>, in Python's order: the
  active lexer is the last element, \<^verbatim>\<open>append\<close> adds at the end and \<^verbatim>\<open>pop\<close> removes the
  last element. \<open>IncludingLexer\<close> is \<^verbatim>\<open>__init__\<close>.
\<close>

definition IncludingLexer :: "(string \<Rightarrow> io_result) \<Rightarrow> string \<Rightarrow> error + lexer list" where
  "IncludingLexer fs fname =
     (case make_lexer fs fname (fname, 0, 0) of
        Inl e \<Rightarrow> Inl e
      | Inr lexer \<Rightarrow> Inr [lexer])"

subsection \<open>\<^verbatim>\<open>IncludingLexer.__next__\<close>\<close>

text \<open>
  \<open>include_statement\<close> is the body of the branch taken after the name \<^verbatim>\<open>include\<close>
  (source lines 178 to 189), for the active lexer and the current length of \<^verbatim>\<open>lexers_\<close>:
  it returns the error raised and the lexer as it was then, or the active lexer after the
  semicolon together with the new lexer to append. An exception of \<^verbatim>\<open>lexer.next()\<close> in
  this branch is not caught by the source, \<^verbatim>\<open>StopIteration\<close> included. The source's tests
  \<^verbatim>\<open>fname_type is not Lexer.FILENAME\<close> and
  \<^verbatim>\<open>semi_type is not Lexer.SYMBOL or semi_token != ";"\<close>, which raise, are the two outer
  \<open>else\<close> branches here. \<^verbatim>\<open>os.path.join\<close> raises \<^verbatim>\<open>TypeError\<close> for a second part that is
  not a string (the value of a file name token always is one).
\<close>

definition include_statement ::
  "(string \<Rightarrow> io_result) \<Rightarrow> nat \<Rightarrow> lexer \<Rightarrow> (error \<times> lexer) + (lexer \<times> lexer)" where
  "include_statement fs depth lexer =
     (case Lexer_next lexer of
        (Inl e, l1) \<Rightarrow> Inl (e, l1)
      | (Inr (fname_type, fname_token, fname_location), l1) \<Rightarrow>
          if fname_type = FILENAME then
            (case Lexer_next l1 of
               (Inl e, l2) \<Rightarrow> Inl (e, l2)
             | (Inr (semi_type, semi_token, semi_location), l2) \<Rightarrow>
                 if semi_type = SYMBOL \<and> semi_token = StrVal '';'' then
                   (case fname_token of
                      StrVal fname \<Rightarrow>
                        (let curpath = fst (os_path_split (filename l2));
                             path = os_path_join curpath fname
                         in if depth \<ge> 5 then
                              Inl (FeatureLibError ''Too many recursive includes'' fname_location, l2)
                            else
                              (case make_lexer fs path fname_location of
                                 Inl e \<Rightarrow> Inl (e, l2)
                               | Inr new \<Rightarrow> Inr (l2, new)))
                    | _ \<Rightarrow> Inl (TypeError, l2))
                 else Inl (FeatureLibError MSG_EXPECTED_SEMICOLON semi_location, l2))
          else Inl (FeatureLibError ''Expected file name'' fname_location, l1))"

lemma include_statement_push:
  assumes "include_statement fs depth l = Inr (l2, new)"
  shows "depth < 5" "text l2 = text l" "filename l2 = filename l" "pos l < pos l2"
        "pos l2 \<le> length (text l)"
proof -
  from assms obtain ft ftok floc l1 st stok sloc where
    a: "Lexer_next l = (Inr (ft, ftok, floc), l1)" and
    b: "Lexer_next l1 = (Inr (st, stok, sloc), l2)" and d: "depth < 5"
    by (auto simp: include_statement_def Let_def
             split: prod.splits sum.splits if_splits token_value.splits)
  show "depth < 5" by (rule d)
  show "text l2 = text l" "filename l2 = filename l" "pos l < pos l2" "pos l2 \<le> length (text l)"
    using Lexer_next_token [OF a] Lexer_next_token [OF b] by simp_all
qed

text \<open>
  The loop of \<^verbatim>\<open>__next__\<close> ends: popping shortens the stack, and an include statement
  consumes text of the active lexer before it pushes, which happens only below depth 5.
  The order compares the unread text of the five lowest lexers lexicographically, then the
  length of the stack.
\<close>

definition slot :: "nat \<Rightarrow> lexer list \<Rightarrow> nat" where
  "slot i ls = (if i < length ls then Suc (length (text (ls ! i)) - pos (ls ! i)) else 0)"

definition stack_order :: "(((string \<Rightarrow> io_result) \<times> lexer list) \<times> ((string \<Rightarrow> io_result) \<times> lexer list)) set" where
  "stack_order =
     measures [\<lambda>(fs, ls). slot 0 ls, \<lambda>(fs, ls). slot 1 ls, \<lambda>(fs, ls). slot 2 ls,
               \<lambda>(fs, ls). slot 3 ls, \<lambda>(fs, ls). slot 4 ls, \<lambda>(fs, ls). length ls]"

lemma stack_order_slot:
  assumes "k < 5" "\<And>j. j < k \<Longrightarrow> slot j xs = slot j ys" "slot k xs < slot k ys"
  shows "((fs, xs), (fs', ys)) \<in> stack_order"
proof -
  from assms(1) have "k = 0 \<or> k = 1 \<or> k = 2 \<or> k = 3 \<or> k = 4" by arith
  then show ?thesis
    using assms(2,3) by (elim disjE) (simp_all add: stack_order_def)
qed

lemma stack_order_length:
  assumes "\<And>j. j < 5 \<Longrightarrow> slot j xs = slot j ys" "length xs < length ys"
  shows "((fs, xs), (fs', ys)) \<in> stack_order"
  using assms by (simp add: stack_order_def)

lemma stack_order_pop:
  assumes "ys \<noteq> []"
  shows "((fs, butlast ys), (fs', ys)) \<in> stack_order"
proof (cases "length ys \<le> 5")
  case True
  show ?thesis
  proof (rule stack_order_slot [of "length ys - 1"])
    show "length ys - 1 < 5" using True assms by (cases ys) auto
    show "slot j (butlast ys) = slot j ys" if "j < length ys - 1" for j
      using that by (simp add: slot_def nth_butlast)
    show "slot (length ys - 1) (butlast ys) < slot (length ys - 1) ys"
      using assms by (simp add: slot_def)
  qed
next
  case False
  show ?thesis
  proof (rule stack_order_length)
    show "slot j (butlast ys) = slot j ys" if "j < 5" for j
      using that False by (simp add: slot_def nth_butlast)
    show "length (butlast ys) < length ys" using assms by simp
  qed
qed

lemma stack_order_push:
  assumes "ys \<noteq> []" "length ys < 5" "text l = text (last ys)" "pos (last ys) < pos l"
    "pos l \<le> length (text l)"
  shows "((fs, butlast ys @ [l, new]), (fs', ys)) \<in> stack_order"
proof (rule stack_order_slot [of "length ys - 1"])
  show "length ys - 1 < 5" using assms by simp
  show "slot j (butlast ys @ [l, new]) = slot j ys" if "j < length ys - 1" for j
    using that by (simp add: slot_def nth_append nth_butlast)
  show "slot (length ys - 1) (butlast ys @ [l, new]) < slot (length ys - 1) ys"
    using assms by (auto simp: slot_def nth_append last_conv_nth)
qed

text \<open>
  \<^verbatim>\<open>__next__\<close>: the result is the token returned or the exception raised (the end of the
  stream is \<^verbatim>\<open>StopIteration\<close>), with the stack after the call.
\<close>

function IncludingLexer_next ::
  "(string \<Rightarrow> io_result) \<Rightarrow> lexer list \<Rightarrow> (error + token) \<times> lexer list" where
  "IncludingLexer_next fs lexers =
     (if lexers = [] then (Inl StopIteration, lexers)
      else
        (case Lexer_next (last lexers) of
           (Inl StopIteration, lexer) \<Rightarrow> IncludingLexer_next fs (butlast lexers)
         | (Inl e, lexer) \<Rightarrow> (Inl e, butlast lexers @ [lexer])
         | (Inr (token_type, tok, location), lexer) \<Rightarrow>
             if token_type = NAME \<and> tok = StrVal ''include'' then
               (case include_statement fs (length lexers) lexer of
                  Inl (e, lexer') \<Rightarrow> (Inl e, butlast lexers @ [lexer'])
                | Inr (lexer', new) \<Rightarrow> IncludingLexer_next fs (butlast lexers @ [lexer', new]))
             else (Inr (token_type, tok, location), butlast lexers @ [lexer])))"
  by pat_completeness auto
termination
proof (relation stack_order)
  show "wf stack_order" by (simp add: stack_order_def)
next
  fix fs :: "string \<Rightarrow> io_result" and lexers :: "lexer list"
  assume "lexers \<noteq> []"
  then show "((fs, butlast lexers), (fs, lexers)) \<in> stack_order" by (rule stack_order_pop)
next
  fix fs :: "string \<Rightarrow> io_result" and lexers :: "lexer list" and x lexer b ba lexer' new
  assume ne: "lexers \<noteq> []" and a: "(x, lexer) = Lexer_next (last lexers)" "x = Inr b"
    and i: "include_statement fs (length lexers) lexer = Inr ba" "(lexer', new) = ba"
  have t: "Lexer_next (last lexers) = (Inr b, lexer)" using a by simp
  have p: "include_statement fs (length lexers) lexer = Inr (lexer', new)" using i by simp
  show "((fs, butlast lexers @ [lexer', new]), (fs, lexers)) \<in> stack_order"
    using ne include_statement_push [OF p] Lexer_next_token [OF t]
    by (intro stack_order_push) simp_all
qed

declare IncludingLexer_next.simps [simp del]

section \<open>Locations\<close>

text \<open>
  \<open>here s\<close> is the location the source computes at lines 57 and 58 from a lexer state.
  \<open>locs P r\<close> says that the location carried by a result, a token's or a
  \<^verbatim>\<open>FeatureLibError\<close>'s, satisfies \<open>P\<close>. A lexer state is well formed when its line number
  is at least 1 and the start of its line is not after its position; \<open>kept\<close> relates a
  state to a later one: the line number has not decreased and the line start is unchanged
  or is the new position.
\<close>

definition here :: "lexer \<Rightarrow> location" where
  "here s = (filename s, line s, int (pos s) - int (line_start s) + 1)"

definition locs :: "(location \<Rightarrow> bool) \<Rightarrow> error + token \<Rightarrow> bool" where
  "locs P r =
     (case r of
        Inr (token_type, tok, location) \<Rightarrow> P location
      | Inl (FeatureLibError msg location) \<Rightarrow> P location
      | Inl _ \<Rightarrow> True)"

definition one_based :: "location \<Rightarrow> bool" where
  "one_based location = (1 \<le> fst (snd location) \<and> 1 \<le> snd (snd location))"

definition wf_lexer :: "lexer \<Rightarrow> bool" where
  "wf_lexer s = (1 \<le> line s \<and> line_start s \<le> pos s)"

definition kept :: "lexer \<Rightarrow> lexer \<Rightarrow> bool" where
  "kept s s' =
     (line s \<le> line s' \<and> (if line_start s' = line_start s then True else line_start s' = pos s'))"

lemma locs_simps [simp]:
  "locs P (Inr (tt, tok, loc)) = P loc"
  "locs P (Inl (FeatureLibError msg loc)) = P loc"
  "locs P (Inl StopIteration) = True"
  "locs P (Inl TypeError) = True"
  "locs P (Inl ValueError) = True"
  "locs P (Inl UnicodeDecodeError) = True"
  by (simp_all add: locs_def)

lemma locs_mono: "locs P r \<Longrightarrow> (\<And>loc. P loc \<Longrightarrow> Q loc) \<Longrightarrow> locs Q r"
  by (auto simp: locs_def split: sum.splits error.splits)

lemma and_in_cases:
  "and_in b nc cs = Inl e \<Longrightarrow> e = TypeError"
  by (auto simp: and_in_def split: if_splits option.splits)

lemma py_int_cases: "py_int ds base = Inl e \<Longrightarrow> e = ValueError"
  by (auto simp: py_int_def Let_def split: if_splits)

lemma to_number_locs: "locs P (fst (to_number ds base loc s1)) = (py_int ds base = Inl ValueError \<or> P loc)"
  by (auto simp: to_number_def split: sum.splits dest: py_int_cases)

lemma to_number_snd [simp]: "snd (to_number ds base loc s1) = s1"
  by (simp add: to_number_def split: sum.splits)

lemma scan_filename_locs: "locs (\<lambda>l. l = loc) (fst (scan_filename s start loc c))"
  by (simp add: scan_filename_def Let_def)

lemma scan_glyphclass_locs: "locs (\<lambda>l. l = loc) (fst (scan_glyphclass s start loc))"
  by (simp add: scan_glyphclass_def Let_def)

lemma scan_string_locs: "locs (\<lambda>l. l = loc) (fst (scan_string s start loc))"
  by (simp add: scan_string_def Let_def)

lemma scan_number_locs: "locs (\<lambda>l. l = loc) (fst (scan_number s start loc c nc))"
  unfolding scan_number_def Let_def
  by (auto simp: to_number_locs scan_string_locs split: sum.splits bool.splits dest!: and_in_cases)

lemma scan_normal_locs: "locs (\<lambda>l. l = loc) (fst (scan_normal s start loc c nc))"
  unfolding scan_normal_def Let_def
  by (auto simp: scan_glyphclass_locs scan_number_locs split: sum.splits bool.splits
           dest!: and_in_cases py_int_cases)

lemma scan_token_locs: "locs (\<lambda>l. l = here s) (fst (scan_token s))"
  unfolding scan_token_def Let_def here_def
  by (simp add: scan_filename_locs scan_normal_locs)

lemma next_raw_locs: "locs (\<lambda>l. l = here (scan_over CHAR_WHITESPACE s)) (fst (next_raw s))"
  unfolding next_raw_def by (rule scan_token_locs)

lemma scan_filename_kept: "kept s (snd (scan_filename s start loc c))"
  by (simp add: scan_filename_def Let_def kept_def)

lemma scan_glyphclass_kept: "kept s (snd (scan_glyphclass s start loc))"
  by (simp add: scan_glyphclass_def Let_def kept_def)

lemma scan_string_kept: "kept s (snd (scan_string s start loc))"
  by (simp add: scan_string_def Let_def kept_def)

lemma kept_same: "line s' = line s \<Longrightarrow> line_start s' = line_start s \<Longrightarrow> kept s s'"
  by (simp add: kept_def)

lemma scan_number_kept: "kept s (snd (scan_number s start loc c nc))"
  unfolding scan_number_def Let_def
  by (auto simp: scan_string_kept kept_same split: sum.splits bool.splits)

lemma scan_normal_kept: "kept s (snd (scan_normal s start loc c nc))"
  unfolding scan_normal_def Let_def
  by (auto simp: scan_glyphclass_kept scan_number_kept kept_same split: sum.splits bool.splits)

lemma scan_token_kept: "kept s (snd (scan_token s))"
  unfolding scan_token_def Let_def
  by (auto simp: scan_filename_kept scan_normal_kept kept_same) (simp_all add: kept_def)

lemma next_raw_kept: "kept s (snd (next_raw s))"
  using scan_token_kept [of "scan_over CHAR_WHITESPACE s"]
  by (simp add: next_raw_def kept_def)

lemma wf_lexer_step:
  "wf_lexer s \<Longrightarrow> kept s s' \<Longrightarrow> pos s \<le> pos s' \<Longrightarrow> wf_lexer s'"
  by (auto simp: wf_lexer_def kept_def split: if_splits)

lemma next_raw_wf: "wf_lexer s \<Longrightarrow> wf_lexer (snd (next_raw s))"
  using next_raw_kept [of s] next_raw_advanced [of s]
  by (auto intro: wf_lexer_step simp: advanced_def)

lemma here_one_based: "wf_lexer s \<Longrightarrow> one_based (here s)"
  by (simp add: wf_lexer_def here_def one_based_def)

lemma scan_over_wf: "wf_lexer s \<Longrightarrow> wf_lexer (scan_over valid s)"
  by (simp add: wf_lexer_def le_trans)

lemma next_raw_one_based: "wf_lexer s \<Longrightarrow> locs one_based (fst (next_raw s))"
  by (rule locs_mono [OF next_raw_locs]) (simp add: here_one_based scan_over_wf)

lemma next_raw_named: "locs (\<lambda>l. fst l = filename s) (fst (next_raw s))"
  by (rule locs_mono [OF next_raw_locs]) (simp add: here_def)

text \<open>
  Line accounting of one call of \<^verbatim>\<open>next_\<close>, for a lexer that had line \<open>ln\<close> and line
  start \<open>ls\<close>: a newline token adds 1 to the line and moves the line start to the position
  after it; any other token, and any exception, leaves both as they were.
\<close>

definition lines_after :: "int \<Rightarrow> nat \<Rightarrow> (error + token) \<times> lexer \<Rightarrow> bool" where
  "lines_after ln ls rs =
     (case fst rs of
        Inl e \<Rightarrow> line (snd rs) = ln \<and> line_start (snd rs) = ls
      | Inr (token_type, tok, location) \<Rightarrow>
          if token_type = NEWLINE then line (snd rs) = ln + 1 \<and> line_start (snd rs) = pos (snd rs)
          else line (snd rs) = ln \<and> line_start (snd rs) = ls)"

lemma to_number_lines:
  "line s1 = ln \<Longrightarrow> line_start s1 = ls \<Longrightarrow> lines_after ln ls (to_number ds base loc s1)"
  by (simp add: lines_after_def to_number_def split: sum.splits)

lemma scan_filename_lines: "lines_after (line s) (line_start s) (scan_filename s start loc c)"
  by (simp add: lines_after_def scan_filename_def Let_def)

lemma scan_glyphclass_lines: "lines_after (line s) (line_start s) (scan_glyphclass s start loc)"
  by (simp add: lines_after_def scan_glyphclass_def Let_def)

lemma scan_string_lines: "lines_after (line s) (line_start s) (scan_string s start loc)"
  by (simp add: lines_after_def scan_string_def Let_def)

lemma scan_number_lines: "lines_after (line s) (line_start s) (scan_number s start loc c nc)"
  unfolding scan_number_def Let_def
  by (simp add: to_number_lines scan_string_lines split: sum.splits bool.splits)
     (simp add: lines_after_def)

lemma scan_normal_lines: "lines_after (line s) (line_start s) (scan_normal s start loc c nc)"
  unfolding scan_normal_def Let_def
  by (simp add: scan_glyphclass_lines scan_number_lines split: sum.splits bool.splits)
     (simp add: lines_after_def)

lemma scan_token_lines: "lines_after (line s) (line_start s) (scan_token s)"
  unfolding scan_token_def Let_def
  by (simp add: scan_filename_lines scan_normal_lines) (simp add: lines_after_def)

lemma next_raw_lines: "lines_after (line s) (line_start s) (next_raw s)"
  using scan_token_lines [of "scan_over CHAR_WHITESPACE s"] by (simp add: next_raw_def)

lemma next_raw_newline:
  "next_raw s = (Inr (NEWLINE, tok, loc), s') \<Longrightarrow>
     line s' = line s + 1 \<and> line_start s' = pos s' \<and>
     loc = here (scan_over CHAR_WHITESPACE s)"
  using next_raw_lines [of s] next_raw_locs [of s] by (simp add: lines_after_def)

lemma next_raw_other:
  "next_raw s = (Inr (tt, tok, loc), s') \<Longrightarrow> tt \<noteq> NEWLINE \<Longrightarrow>
     line s' = line s \<and> line_start s' = line_start s \<and>
     loc = here (scan_over CHAR_WHITESPACE s)"
  using next_raw_lines [of s] next_raw_locs [of s] by (simp add: lines_after_def)

section \<open>Case rules for the two \<^verbatim>\<open>__next__\<close> loops\<close>

lemma IncludingLexer_next_unfold:
  "IncludingLexer_next fs [] = (Inl StopIteration, [])"
  "ls \<noteq> [] \<Longrightarrow> Lexer_next (last ls) = (Inl StopIteration, l) \<Longrightarrow>
     IncludingLexer_next fs ls = IncludingLexer_next fs (butlast ls)"
  "ls \<noteq> [] \<Longrightarrow> Lexer_next (last ls) = (Inl e, l) \<Longrightarrow> e \<noteq> StopIteration \<Longrightarrow>
     IncludingLexer_next fs ls = (Inl e, butlast ls @ [l])"
  "ls \<noteq> [] \<Longrightarrow> Lexer_next (last ls) = (Inr (tt, tok, loc), l) \<Longrightarrow>
     \<not> (tt = NAME \<and> tok = StrVal ''include'') \<Longrightarrow>
     IncludingLexer_next fs ls = (Inr (tt, tok, loc), butlast ls @ [l])"
  "ls \<noteq> [] \<Longrightarrow> Lexer_next (last ls) = (Inr (NAME, StrVal ''include'', loc), l) \<Longrightarrow>
     include_statement fs (length ls) l = Inl (e, l') \<Longrightarrow>
     IncludingLexer_next fs ls = (Inl e, butlast ls @ [l'])"
  "ls \<noteq> [] \<Longrightarrow> Lexer_next (last ls) = (Inr (NAME, StrVal ''include'', loc), l) \<Longrightarrow>
     include_statement fs (length ls) l = Inr (l', new) \<Longrightarrow>
     IncludingLexer_next fs ls = IncludingLexer_next fs (butlast ls @ [l', new])"
  by (rule trans [OF IncludingLexer_next.simps], auto split: error.splits)+

lemma IncludingLexer_next_cases [case_names empty pop error token include_error include_push]:
  assumes "\<And>fs. P fs []"
    and "\<And>fs ls l. ls \<noteq> [] \<Longrightarrow> Lexer_next (last ls) = (Inl StopIteration, l) \<Longrightarrow>
           P fs (butlast ls) \<Longrightarrow> P fs ls"
    and "\<And>fs ls e l. ls \<noteq> [] \<Longrightarrow> Lexer_next (last ls) = (Inl e, l) \<Longrightarrow> e \<noteq> StopIteration \<Longrightarrow>
           P fs ls"
    and "\<And>fs ls tt tok loc l. ls \<noteq> [] \<Longrightarrow> Lexer_next (last ls) = (Inr (tt, tok, loc), l) \<Longrightarrow>
           \<not> (tt = NAME \<and> tok = StrVal ''include'') \<Longrightarrow> P fs ls"
    and "\<And>fs ls loc l e l'. ls \<noteq> [] \<Longrightarrow>
           Lexer_next (last ls) = (Inr (NAME, StrVal ''include'', loc), l) \<Longrightarrow>
           include_statement fs (length ls) l = Inl (e, l') \<Longrightarrow> P fs ls"
    and "\<And>fs ls loc l l' new. ls \<noteq> [] \<Longrightarrow>
           Lexer_next (last ls) = (Inr (NAME, StrVal ''include'', loc), l) \<Longrightarrow>
           include_statement fs (length ls) l = Inr (l', new) \<Longrightarrow>
           P fs (butlast ls @ [l', new]) \<Longrightarrow> P fs ls"
  shows "P fs ls"
proof (induction fs ls rule: IncludingLexer_next.induct)
  case (1 fs lexers)
  show ?case
  proof (cases "lexers = []")
    case True
    then show ?thesis using assms(1) by simp
  next
    case ne: False
    obtain r l where n: "Lexer_next (last lexers) = (r, l)" by (cases "Lexer_next (last lexers)")
    show ?thesis
    proof (cases r)
      case (Inl e)
      show ?thesis
      proof (cases "e = StopIteration")
        case True
        have "P fs (butlast lexers)" using "1.IH"(1) [OF ne n [symmetric] Inl True] .
        then show ?thesis using assms(2) ne n Inl True by simp
      next
        case False
        then show ?thesis using assms(3) ne n Inl by simp
      qed
    next
      case (Inr t)
      obtain tt tok loc where t: "t = (tt, tok, loc)" by (cases t)
      show ?thesis
      proof (cases "tt = NAME \<and> tok = StrVal ''include''")
        case False
        then show ?thesis using assms(4) [OF ne] n Inr t by simp
      next
        case inc: True
        show ?thesis
        proof (cases "include_statement fs (length lexers) l")
          case (Inl el)
          obtain e l' where "el = (e, l')" by (cases el)
          then show ?thesis using assms(5) [OF ne] n \<open>r = Inr t\<close> t inc Inl by simp
        next
          case (Inr p)
          obtain l' new where p: "p = (l', new)" by (cases p)
          have "P fs (butlast lexers @ [l', new])"
            using "1.IH"(2) [OF ne n [symmetric] \<open>r = Inr t\<close> t [symmetric] refl inc Inr p [symmetric]] .
          then show ?thesis using assms(6) [OF ne] n \<open>r = Inr t\<close> t inc Inr p by simp
        qed
      qed
    qed
  qed
qed

lemma Lexer_next_unfold:
  "next_raw s = (Inl e, s') \<Longrightarrow> Lexer_next s = (Inl e, s')"
  "next_raw s = (Inr (tt, tok, loc), s') \<Longrightarrow> tt \<in> {COMMENT, NEWLINE} \<Longrightarrow> Lexer_next s = Lexer_next s'"
  "next_raw s = (Inr (tt, tok, loc), s') \<Longrightarrow> tt \<notin> {COMMENT, NEWLINE} \<Longrightarrow>
     Lexer_next s = (Inr (tt, tok, loc), s')"
  by (rule trans [OF Lexer_next.simps], simp)+

lemma Lexer_next_cases [case_names error skip token]:
  assumes "\<And>s e s'. next_raw s = (Inl e, s') \<Longrightarrow> P s"
    and "\<And>s tt tok loc s'. next_raw s = (Inr (tt, tok, loc), s') \<Longrightarrow> tt \<in> {COMMENT, NEWLINE} \<Longrightarrow>
           P s' \<Longrightarrow> P s"
    and "\<And>s tt tok loc s'. next_raw s = (Inr (tt, tok, loc), s') \<Longrightarrow> tt \<notin> {COMMENT, NEWLINE} \<Longrightarrow>
           P s"
  shows "P s"
proof (induction s rule: Lexer_next.induct)
  case (1 s)
  obtain r s' where n: "next_raw s = (r, s')" by (cases "next_raw s")
  show ?case
  proof (cases r)
    case (Inl e)
    then show ?thesis using assms(1) n by simp
  next
    case (Inr t)
    obtain tt tok loc where t: "t = (tt, tok, loc)" by (cases t)
    show ?thesis
    proof (cases "tt \<in> {COMMENT, NEWLINE}")
      case True
      have "P s'" using "1.IH" [OF n [symmetric] Inr t [symmetric] refl True] .
      then show ?thesis using assms(2) n Inr t True by simp
    next
      case False
      then show ?thesis using assms(3) n Inr t by simp
    qed
  qed
qed

lemma Lexer_next_wf:
  "wf_lexer s \<Longrightarrow> wf_lexer (snd (Lexer_next s)) \<and> locs one_based (fst (Lexer_next s))"
proof (induction s rule: Lexer_next_cases)
  case (error s e s')
  then show ?case
    using next_raw_wf [of s] next_raw_one_based [of s] by (simp add: Lexer_next_unfold)
next
  case (skip s tt tok loc s')
  then show ?case using next_raw_wf [of s] by (simp add: Lexer_next_unfold)
next
  case (token s tt tok loc s')
  then show ?case
    using next_raw_wf [of s] next_raw_one_based [of s] by (simp add: Lexer_next_unfold)
qed

lemma Lexer_next_named: "locs (\<lambda>l. fst l = filename s) (fst (Lexer_next s))"
proof (induction s rule: Lexer_next_cases)
  case (error s e s')
  then show ?case using next_raw_named [of s] by (simp add: Lexer_next_unfold)
next
  case (skip s tt tok loc s')
  then show ?case using next_raw_token(2) [of s _ s'] by (simp add: Lexer_next_unfold)
next
  case (token s tt tok loc s')
  then show ?case using next_raw_named [of s] by (simp add: Lexer_next_unfold)
qed

lemma Lexer_wf [simp]: "wf_lexer (Lexer txt fname)"
  by (simp add: wf_lexer_def Lexer_def)

lemma include_statement_cases
  [case_names first_error no_file_name second_error no_semicolon no_string too_deep
              open_error push]:
  obtains
    (first_error) e l1 where
      "Lexer_next l = (Inl e, l1)" "include_statement fs depth l = Inl (e, l1)"
  | (no_file_name) ft ftok floc l1 where
      "Lexer_next l = (Inr (ft, ftok, floc), l1)" "ft \<noteq> FILENAME"
      "include_statement fs depth l = Inl (FeatureLibError ''Expected file name'' floc, l1)"
  | (second_error) ftok floc l1 e l2 where
      "Lexer_next l = (Inr (FILENAME, ftok, floc), l1)" "Lexer_next l1 = (Inl e, l2)"
      "include_statement fs depth l = Inl (e, l2)"
  | (no_semicolon) ftok floc l1 st stok sloc l2 where
      "Lexer_next l = (Inr (FILENAME, ftok, floc), l1)"
      "Lexer_next l1 = (Inr (st, stok, sloc), l2)" "\<not> (st = SYMBOL \<and> stok = StrVal '';'')"
      "include_statement fs depth l = Inl (FeatureLibError MSG_EXPECTED_SEMICOLON sloc, l2)"
  | (no_string) ftok floc l1 sloc l2 where
      "Lexer_next l = (Inr (FILENAME, ftok, floc), l1)"
      "Lexer_next l1 = (Inr (SYMBOL, StrVal '';'', sloc), l2)" "\<forall>fname. ftok \<noteq> StrVal fname"
      "include_statement fs depth l = Inl (TypeError, l2)"
  | (too_deep) fname floc l1 sloc l2 where
      "Lexer_next l = (Inr (FILENAME, StrVal fname, floc), l1)"
      "Lexer_next l1 = (Inr (SYMBOL, StrVal '';'', sloc), l2)" "5 \<le> depth"
      "include_statement fs depth l =
         Inl (FeatureLibError ''Too many recursive includes'' floc, l2)"
  | (open_error) fname floc l1 sloc l2 e where
      "Lexer_next l = (Inr (FILENAME, StrVal fname, floc), l1)"
      "Lexer_next l1 = (Inr (SYMBOL, StrVal '';'', sloc), l2)" "depth < 5"
      "make_lexer fs (os_path_join (fst (os_path_split (filename l2))) fname) floc = Inl e"
      "include_statement fs depth l = Inl (e, l2)"
  | (push) fname floc l1 sloc l2 new where
      "Lexer_next l = (Inr (FILENAME, StrVal fname, floc), l1)"
      "Lexer_next l1 = (Inr (SYMBOL, StrVal '';'', sloc), l2)" "depth < 5"
      "make_lexer fs (os_path_join (fst (os_path_split (filename l2))) fname) floc = Inr new"
      "include_statement fs depth l = Inr (l2, new)"
proof -
  obtain r1 l1 where a: "Lexer_next l = (r1, l1)" by (cases "Lexer_next l")
  show thesis
  proof (cases r1)
    case (Inl e)
    then show thesis using first_error [of e l1] a by (simp add: include_statement_def)
  next
    case (Inr t1)
    obtain ft ftok floc where t1: "t1 = (ft, ftok, floc)" by (cases t1)
    show thesis
    proof (cases "ft = FILENAME")
      case False
      then show thesis
        using no_file_name [of ft ftok floc l1] a Inr t1 by (simp add: include_statement_def)
    next
      case ft: True
      obtain r2 l2 where b: "Lexer_next l1 = (r2, l2)" by (cases "Lexer_next l1")
      show thesis
      proof (cases r2)
        case (Inl e)
        then show thesis
          using second_error [of ftok floc l1 e l2] a b \<open>r1 = Inr t1\<close> t1 ft
          by (simp add: include_statement_def)
      next
        case r2: (Inr t2)
        obtain st stok sloc where t2: "t2 = (st, stok, sloc)" by (cases t2)
        show thesis
        proof (cases "st = SYMBOL \<and> stok = StrVal '';''")
          case False
          then show thesis
            using no_semicolon [of ftok floc l1 st stok sloc l2] a b \<open>r1 = Inr t1\<close> t1 ft r2 t2
            by (auto simp: include_statement_def)
        next
          case semi: True
          show thesis
          proof (cases ftok)
            case (StrVal fname)
            show thesis
            proof (cases "5 \<le> depth")
              case True
              then show thesis
                using too_deep [of fname floc l1 sloc l2] a b \<open>r1 = Inr t1\<close> t1 ft r2 t2 semi StrVal
                by (simp add: include_statement_def)
            next
              case d: False
              show thesis
              proof (cases "make_lexer fs (os_path_join (fst (os_path_split (filename l2))) fname) floc")
                case (Inl e)
                then show thesis
                  using open_error [of fname floc l1 sloc l2 e] a b \<open>r1 = Inr t1\<close> t1 ft r2 t2 semi
                    StrVal d
                  by (simp add: include_statement_def)
              next
                case (Inr new)
                then show thesis
                  using push [of fname floc l1 sloc l2 new] a b \<open>r1 = Inr t1\<close> t1 ft r2 t2 semi
                    StrVal d
                  by (simp add: include_statement_def)
              qed
            qed
          next
            case (IntVal n)
            then show thesis
              using no_string [of ftok floc l1 sloc l2] a b \<open>r1 = Inr t1\<close> t1 ft r2 t2 semi
              by (simp add: include_statement_def)
          next
            case NoneVal
            then show thesis
              using no_string [of ftok floc l1 sloc l2] a b \<open>r1 = Inr t1\<close> t1 ft r2 t2 semi
              by (simp add: include_statement_def)
          qed
        qed
      qed
    qed
  qed
qed

lemma list_all_butlast: "list_all P ls \<Longrightarrow> list_all P (butlast ls)"
  by (auto simp: list_all_iff dest: in_set_butlastD)

lemma list_all_last: "ls \<noteq> [] \<Longrightarrow> list_all P ls \<Longrightarrow> P (last ls)"
  by (simp add: list_all_iff)

lemma make_lexer_cases:
  "make_lexer fs path loc = Inl e \<Longrightarrow>
     (\<exists>msg. fs path = IOError msg \<and> e = FeatureLibError msg loc) \<or>
     (fs path = DecodeError \<and> e = UnicodeDecodeError)"
  "make_lexer fs path loc = Inr new \<Longrightarrow> (\<exists>txt. fs path = FileText txt \<and> new = Lexer txt path)"
  by (auto simp: make_lexer_def split: io_result.splits)

lemma include_statement_wf:
  assumes "wf_lexer l"
  shows "case include_statement fs depth l of
           Inl (e, l') \<Rightarrow> wf_lexer l' \<and> locs one_based (Inl e)
         | Inr (l', new) \<Rightarrow> wf_lexer l' \<and> wf_lexer new"
proof -
  have step: "wf_lexer (snd (Lexer_next s)) \<and> locs one_based (fst (Lexer_next s))"
    if "wf_lexer s" for s using that by (rule Lexer_next_wf)
  show ?thesis
  proof (cases rule: include_statement_cases [of l fs depth])
    case (first_error e l1)
    then show ?thesis using step [OF assms] by simp
  next
    case (no_file_name ft ftok floc l1)
    then show ?thesis using step [OF assms] by simp
  next
    case (second_error ftok floc l1 e l2)
    then show ?thesis using step [OF assms] step [of l1] by simp
  next
    case (no_semicolon ftok floc l1 st stok sloc l2)
    then show ?thesis using step [OF assms] step [of l1] by simp
  next
    case (no_string ftok floc l1 sloc l2)
    then show ?thesis using step [OF assms] step [of l1] by simp
  next
    case (too_deep fname floc l1 sloc l2)
    then show ?thesis using step [OF assms] step [of l1] by simp
  next
    case (open_error fname floc l1 sloc l2 e)
    then show ?thesis
      using step [OF assms] step [of l1] by (auto dest!: make_lexer_cases(1))
  next
    case (push fname floc l1 sloc l2 new)
    then show ?thesis
      using step [OF assms] step [of l1] by (auto dest!: make_lexer_cases(2))
  qed
qed

lemma IncludingLexer_next_wf:
  "list_all wf_lexer ls \<Longrightarrow>
   list_all wf_lexer (snd (IncludingLexer_next fs ls)) \<and>
   locs one_based (fst (IncludingLexer_next fs ls))"
proof (induction fs ls rule: IncludingLexer_next_cases)
  case (empty fs)
  then show ?case by (simp add: IncludingLexer_next_unfold)
next
  case (pop fs ls l)
  then show ?case
    by (simp add: IncludingLexer_next_unfold(2) [of ls l] list_all_butlast)
next
  case (error fs ls e l)
  from Lexer_next_wf [OF list_all_last [OF error(1,4)]] error show ?case
    by (simp add: IncludingLexer_next_unfold(3) [of ls e l] list_all_butlast)
next
  case (token fs ls tt tok loc l)
  from Lexer_next_wf [OF list_all_last [OF token(1,4)]] token show ?case
    by (simp add: IncludingLexer_next_unfold(4) [of ls tt tok loc l] list_all_butlast)
next
  case (include_error fs ls loc l e l')
  from Lexer_next_wf [OF list_all_last [OF include_error(1,4)]] include_error
  have "wf_lexer l" by simp
  from include_statement_wf [OF this, of fs "length ls"] include_error show ?case
    by (simp add: IncludingLexer_next_unfold(5) [of ls loc l fs e l'] list_all_butlast)
next
  case (include_push fs ls loc l l' new)
  from Lexer_next_wf [OF list_all_last [OF include_push(1,5)]] include_push
  have "wf_lexer l" by simp
  from include_statement_wf [OF this, of fs "length ls"] include_push
  have "list_all wf_lexer (butlast ls @ [l', new])"
    by (simp add: list_all_butlast)
  with include_push show ?case
    by (simp add: IncludingLexer_next_unfold(6) [of ls loc l fs l' new])
qed

section \<open>Modes\<close>

text \<open>
  \<open>mode_after m rs\<close> relates the mode \<open>m\<close> in which a lexer is asked for a token to the
  result: in file name mode the token is a file name and the mode is normal again (or, for a
  raw token, a comment or newline with the mode unchanged); in normal mode the token is
  never a file name and the mode stays normal unless the token is the name \<^verbatim>\<open>include\<close>.
  \<open>no_directive\<close> says of a result of the including lexer that a token it carries is no
  file name, comment or newline and not the name \<^verbatim>\<open>include\<close>, and that every lexer of the
  stack is then in normal mode.
\<close>

definition mode_after :: "mode \<Rightarrow> (error + token) \<times> lexer \<Rightarrow> bool" where
  "mode_after m rs =
     (case fst rs of
        Inl e \<Rightarrow> True
      | Inr (token_type, tok, location) \<Rightarrow>
          (if m = MODE_FILENAME then
             (if token_type = FILENAME then mode (snd rs) = MODE_NORMAL
              else token_type \<in> {COMMENT, NEWLINE} \<and> mode (snd rs) = MODE_FILENAME)
           else if token_type = FILENAME then False
           else if token_type = NAME \<and> tok = StrVal ''include'' then True
           else mode (snd rs) = MODE_NORMAL))"

definition normal :: "lexer \<Rightarrow> bool" where
  "normal s = (mode s = MODE_NORMAL)"

lemma mode_cases: "m \<noteq> MODE_FILENAME \<Longrightarrow> m = MODE_NORMAL"
  by (cases m) simp_all

lemma to_number_mode:
  "mode s1 = MODE_NORMAL \<Longrightarrow> mode_after MODE_NORMAL (to_number ds base loc s1)"
  by (auto simp: mode_after_def to_number_def split: sum.splits)

lemma scan_filename_mode: "mode_after MODE_FILENAME (scan_filename s start loc c)"
  by (simp add: mode_after_def scan_filename_def Let_def)

lemma scan_glyphclass_mode:
  "mode s = MODE_NORMAL \<Longrightarrow> mode_after MODE_NORMAL (scan_glyphclass s start loc)"
  by (auto simp: mode_after_def scan_glyphclass_def Let_def)

lemma scan_string_mode:
  "mode s = MODE_NORMAL \<Longrightarrow> mode_after MODE_NORMAL (scan_string s start loc)"
  by (auto simp: mode_after_def scan_string_def Let_def)

lemma scan_number_mode:
  "mode s = MODE_NORMAL \<Longrightarrow> mode_after MODE_NORMAL (scan_number s start loc c nc)"
  unfolding scan_number_def Let_def
  by (simp add: to_number_mode scan_string_mode split: sum.splits bool.splits)
     (auto simp: mode_after_def)

lemma scan_normal_mode:
  "mode s = MODE_NORMAL \<Longrightarrow> mode_after MODE_NORMAL (scan_normal s start loc c nc)"
  unfolding scan_normal_def Let_def
  by (simp add: scan_glyphclass_mode scan_number_mode split: sum.splits bool.splits)
     (auto simp: mode_after_def)

lemma scan_token_mode: "mode_after (mode s) (scan_token s)"
proof (cases "mode s")
  case MODE_NORMAL
  then show ?thesis
    unfolding scan_token_def Let_def
    by (simp add: scan_normal_mode) (auto simp: mode_after_def)
next
  case MODE_FILENAME
  then show ?thesis
    unfolding scan_token_def Let_def
    by (simp add: scan_filename_mode) (auto simp: mode_after_def)
qed

lemma next_raw_mode: "mode_after (mode s) (next_raw s)"
  using scan_token_mode [of "scan_over CHAR_WHITESPACE s"]
  by (simp add: next_raw_def)

lemma Lexer_next_not_skipped:
  "Lexer_next s = (Inr (tt, tok, loc), s') \<Longrightarrow> tt \<noteq> COMMENT \<and> tt \<noteq> NEWLINE"
proof (induction s rule: Lexer_next_cases)
  case (error s e s1)
  then show ?case by (simp add: Lexer_next_unfold(1) [of s e s1])
next
  case (skip s tt1 tok1 loc1 s1)
  then show ?case by (simp add: Lexer_next_unfold(2) [of s tt1 tok1 loc1 s1])
next
  case (token s tt1 tok1 loc1 s1)
  then show ?case by (auto simp: Lexer_next_unfold(3) [of s tt1 tok1 loc1 s1])
qed

lemma Lexer_next_mode: "mode_after (mode s) (Lexer_next s)"
proof (induction s rule: Lexer_next_cases)
  case (error s e s')
  then show ?case by (simp add: Lexer_next_unfold mode_after_def)
next
  case (skip s tt tok loc s')
  have "mode s' = mode s"
    using next_raw_mode [of s] skip(1,2)
    by (auto simp: mode_after_def dest: mode_cases split: if_splits)
  then show ?case using skip by (simp add: Lexer_next_unfold(2) [of s tt tok loc s'])
next
  case (token s tt tok loc s')
  then show ?case
    using next_raw_mode [of s] by (simp add: Lexer_next_unfold(3) [of s tt tok loc s'])
qed

lemma Lexer_next_normal:
  assumes "normal s" "Lexer_next s = (Inr (tt, tok, loc), s')"
  shows "tt \<noteq> FILENAME" "tt \<noteq> COMMENT" "tt \<noteq> NEWLINE"
    "\<not> (tt = NAME \<and> tok = StrVal ''include'') \<Longrightarrow> normal s'"
  using Lexer_next_mode [of s] Lexer_next_not_skipped [OF assms(2)] assms
  by (auto simp: normal_def mode_after_def split: if_splits)

lemma Lexer_next_after_include:
  assumes "normal s" "Lexer_next s = (Inr (NAME, StrVal ''include'', loc), l)"
    and "Lexer_next l = (Inr (FILENAME, ftok, floc), l1)"
    and "Lexer_next l1 = (Inr (SYMBOL, stok, sloc), l2)"
  shows "normal l2"
proof -
  have "mode l = MODE_FILENAME \<or> normal l"
    by (cases "mode l") (simp_all add: normal_def)
  then have "normal l1"
    using Lexer_next_mode [of l] assms(3) by (auto simp: normal_def mode_after_def split: if_splits)
  then show ?thesis using Lexer_next_normal(4) [OF _ assms(4)] by simp
qed

lemma Lexer_normal [simp]: "normal (Lexer txt fname)"
  by (simp add: normal_def Lexer_def)

definition no_directive :: "(error + token) \<times> lexer list \<Rightarrow> bool" where
  "no_directive rs =
     (case fst rs of
        Inl e \<Rightarrow> True
      | Inr (token_type, tok, location) \<Rightarrow>
          token_type \<notin> {FILENAME, COMMENT, NEWLINE} \<and>
          (token_type, tok) \<noteq> (NAME, StrVal ''include'') \<and>
          list_all normal (snd rs))"

lemma IncludingLexer_next_normal:
  "list_all normal ls \<Longrightarrow> no_directive (IncludingLexer_next fs ls)"
proof (induction fs ls rule: IncludingLexer_next_cases)
  case (empty fs)
  then show ?case by (simp add: IncludingLexer_next_unfold no_directive_def)
next
  case (pop fs ls l)
  then show ?case by (simp add: IncludingLexer_next_unfold(2) [of ls l] list_all_butlast)
next
  case (error fs ls e l)
  then show ?case by (simp add: IncludingLexer_next_unfold(3) [of ls e l] no_directive_def)
next
  case (token fs ls tt tok loc l)
  have n: "normal (last ls)" using list_all_last [OF token(1,4)] .
  show ?case
    using Lexer_next_normal [OF n token(2)] token(3,4)
    by (auto simp: IncludingLexer_next_unfold(4) [OF token(1,2,3)] list_all_butlast
                   no_directive_def)
next
  case (include_error fs ls loc l e l')
  then show ?case
    by (simp add: IncludingLexer_next_unfold(5) [of ls loc l fs e l'] no_directive_def)
next
  case (include_push fs ls loc l l' new)
  have n: "normal (last ls)" using list_all_last [OF include_push(1,5)] .
  have "normal l' \<and> normal new"
  proof (cases rule: include_statement_cases [of l fs "length ls"])
    case (push fname floc l1 sloc l2 new')
    then have "l' = l2" "new = new'" using include_push(3) by simp_all
    moreover have "normal l2"
      using Lexer_next_after_include [OF n include_push(2) push(1,2)] .
    moreover have "normal new'" using push(4) by (auto dest!: make_lexer_cases(2))
    ultimately show ?thesis by simp
  qed (use include_push(3) in simp_all)
  then have "list_all normal (butlast ls @ [l', new])"
    using include_push(5) by (simp add: list_all_butlast)
  from include_push(4) [OF this] show ?case
    by (simp add: IncludingLexer_next_unfold(6) [OF include_push(1,2,3)])
qed

section \<open>Stack depth\<close>

text \<open>
  Test scenarios: a chain of files in which each file includes the next one and the last
  file holds the single name \<^verbatim>\<open>leaf\<close>; no other file exists. The first file of a chain
  is the root given to the constructor, so a chain of \<open>n + 1\<close> files holds \<open>n\<close> nested
  include statements and needs \<open>n + 1\<close> lexers on the stack: \<open>four_nested\<close>,
  \<open>five_nested\<close> and \<open>six_nested\<close> are the chains of four, five and six nested includes
  under the root. \<open>stack_of\<close> reads the stack that \<^verbatim>\<open>IncludingLexer(filename)\<close> builds (empty
  when the constructor raised). \<open>deep_stack\<close> is the stack of \<open>five_nested\<close> when the file
  \<^verbatim>\<open>i4\<close>, the fifth of the chain, is about to be read.
\<close>

fun chain_files :: "string list \<Rightarrow> string \<Rightarrow> io_result" where
  "chain_files [] p = IOError ''No such file or directory''"
| "chain_files [a] p = (if p = a then FileText ''leaf'' else IOError ''No such file or directory'')"
| "chain_files (a # b # rest) p =
     (if p = a then FileText (''include('' @ b @ '');'') else chain_files (b # rest) p)"

definition stack_of :: "error + lexer list \<Rightarrow> lexer list" where
  "stack_of r = (case r of Inl e \<Rightarrow> [] | Inr ls \<Rightarrow> ls)"

definition deep_stack :: "lexer list" where
  "deep_stack =
     [(Lexer ''include(i1);'' ''root'')\<lparr>pos := 12\<rparr>, (Lexer ''include(i2);'' ''i1'')\<lparr>pos := 12\<rparr>,
      (Lexer ''include(i3);'' ''i2'')\<lparr>pos := 12\<rparr>, (Lexer ''include(i4);'' ''i3'')\<lparr>pos := 12\<rparr>,
      Lexer ''include(i5);'' ''i4'']"

text \<open>A call of \<^verbatim>\<open>__next__\<close> leaves at most five lexers on a stack that had at most five.\<close>

lemma IncludingLexer_next_length:
  "length (snd (IncludingLexer_next fs ls)) \<le> max 5 (length ls)"
proof (induction fs ls rule: IncludingLexer_next.induct)
  case (1 fs lexers)
  show ?case
  proof (cases "lexers = []")
    case True
    then show ?thesis by (subst IncludingLexer_next.simps) simp
  next
    case ne: False
    obtain r l where n: "Lexer_next (last lexers) = (r, l)" by (cases "Lexer_next (last lexers)")
    show ?thesis
    proof (cases r)
      case (Inl e)
      show ?thesis
      proof (cases "e = StopIteration")
        case True
        have "length (snd (IncludingLexer_next fs (butlast lexers))) \<le> max 5 (length (butlast lexers))"
          using "1.IH"(1) [OF ne n [symmetric] Inl True] .
        then show ?thesis
          using ne n Inl True by (subst IncludingLexer_next.simps) simp
      next
        case False
        then show ?thesis
          using ne n Inl by (subst IncludingLexer_next.simps) (simp split: error.splits)
      qed
    next
      case (Inr t)
      obtain tt tok loc where t: "t = (tt, tok, loc)" by (cases t)
      show ?thesis
      proof (cases "tt = NAME \<and> tok = StrVal ''include''")
        case False
        then show ?thesis
          using ne n Inr t by (subst IncludingLexer_next.simps) auto
      next
        case inc: True
        show ?thesis
        proof (cases "include_statement fs (length lexers) l")
          case (Inl el)
          then show ?thesis
            using ne n Inr t inc by (subst IncludingLexer_next.simps) (auto split: prod.splits)
        next
          case (Inr p)
          obtain l' new where p: "p = (l', new)" by (cases p)
          have d: "length lexers < 5"
            using include_statement_push(1) [of fs "length lexers" l l' new] Inr p by simp
          have "length (snd (IncludingLexer_next fs (butlast lexers @ [l', new])))
                  \<le> max 5 (length (butlast lexers @ [l', new]))"
            using "1.IH"(2) [OF ne n [symmetric] \<open>r = Inr t\<close> t [symmetric] refl inc Inr p [symmetric]] .
          then show ?thesis
            using ne n \<open>r = Inr t\<close> t inc Inr p d
            by (subst IncludingLexer_next.simps) simp
        qed
      qed
    qed
  qed
qed

lemma IncludingLexer_next_too_deep:
  assumes "ls \<noteq> []" "5 \<le> length ls"
    and "Lexer_next (last ls) = (Inr (NAME, StrVal ''include'', loc), l1)"
    and "Lexer_next l1 = (Inr (FILENAME, StrVal fname, floc), l2)"
    and "Lexer_next l2 = (Inr (SYMBOL, StrVal '';'', sloc), l3)"
  shows "IncludingLexer_next fs ls =
           (Inl (FeatureLibError ''Too many recursive includes'' floc), butlast ls @ [l3])"
  using assms
  by (subst IncludingLexer_next.simps) (simp add: include_statement_def)

definition four_nested :: "string list" where
  "four_nested = [''root'', ''i1'', ''i2'', ''i3'', ''i4'']"

definition five_nested :: "string list" where
  "five_nested = [''root'', ''i1'', ''i2'', ''i3'', ''i4'', ''i5'']"

definition six_nested :: "string list" where
  "six_nested = [''root'', ''i1'', ''i2'', ''i3'', ''i4'', ''i5'', ''i6'']"

lemma four_nested_run:
  "fst (IncludingLexer_next (chain_files four_nested) (stack_of (IncludingLexer (chain_files four_nested) ''root''))) =
     Inr (NAME, StrVal ''leaf'', (''i4'', 1, 1))"
  "length (snd (IncludingLexer_next (chain_files four_nested)
                  (stack_of (IncludingLexer (chain_files four_nested) ''root'')))) = 5"
  "IncludingLexer_next (chain_files four_nested)
     (snd (IncludingLexer_next (chain_files four_nested)
             (stack_of (IncludingLexer (chain_files four_nested) ''root'')))) = (Inl StopIteration, [])"
  by code_simp+

lemma five_nested_run:
  "fst (IncludingLexer_next (chain_files five_nested) (stack_of (IncludingLexer (chain_files five_nested) ''root''))) =
     Inl (FeatureLibError ''Too many recursive includes'' (''i4'', 1, 8))"
  "length (snd (IncludingLexer_next (chain_files five_nested)
                  (stack_of (IncludingLexer (chain_files five_nested) ''root'')))) = 5"
  by code_simp+

lemma six_nested_run:
  "fst (IncludingLexer_next (chain_files six_nested) (stack_of (IncludingLexer (chain_files six_nested) ''root''))) =
     Inl (FeatureLibError ''Too many recursive includes'' (''i4'', 1, 8))"
  "length (snd (IncludingLexer_next (chain_files six_nested)
                  (stack_of (IncludingLexer (chain_files six_nested) ''root'')))) = 5"
  by code_simp+

section \<open>Two include statements\<close>

text \<open>
  Test scenario: the root file \<^verbatim>\<open>fea/root.fea\<close> holds two include statements, for
  \<^verbatim>\<open>a.fea\<close> and \<^verbatim>\<open>b.fea\<close>. \<open>root_lexer\<close> is the lexer the constructor builds for it, and
  \<open>two_includes\<close> a file system with the three files, the second included file holding its
  name after a comment line.
\<close>

definition root_text :: string where
  "root_text = ''include(a.fea); include(b.fea);''"

definition root_lexer :: lexer where
  "root_lexer = Lexer root_text ''fea/root.fea''"

definition two_includes :: "string \<Rightarrow> io_result" where
  "two_includes p =
     (if p = ''fea/root.fea'' then FileText root_text
      else if p = ''fea/a.fea'' then FileText ''foo''
      else if p = ''fea/b.fea'' then FileText (''# second'' @ [CHR 0x0A] @ ''bar'' @ [CHR 0x0A])
      else IOError ''No such file or directory'')"

lemma root_lexer_steps:
  "Lexer_next root_lexer =
     (Inr (NAME, StrVal ''include'', (''fea/root.fea'', 1, 1)),
      root_lexer\<lparr>pos := 7, mode := MODE_FILENAME\<rparr>)"
  "Lexer_next (root_lexer\<lparr>pos := 7, mode := MODE_FILENAME\<rparr>) =
     (Inr (FILENAME, StrVal ''a.fea'', (''fea/root.fea'', 1, 8)), root_lexer\<lparr>pos := 14\<rparr>)"
  "Lexer_next (root_lexer\<lparr>pos := 14\<rparr>) =
     (Inr (SYMBOL, StrVal '';'', (''fea/root.fea'', 1, 15)), root_lexer\<lparr>pos := 15\<rparr>)"
  "Lexer_next (root_lexer\<lparr>pos := 15\<rparr>) =
     (Inr (NAME, StrVal ''include'', (''fea/root.fea'', 1, 17)),
      root_lexer\<lparr>pos := 23, mode := MODE_FILENAME\<rparr>)"
  "Lexer_next (root_lexer\<lparr>pos := 23, mode := MODE_FILENAME\<rparr>) =
     (Inr (FILENAME, StrVal ''b.fea'', (''fea/root.fea'', 1, 24)), root_lexer\<lparr>pos := 30\<rparr>)"
  "Lexer_next (root_lexer\<lparr>pos := 30\<rparr>) =
     (Inr (SYMBOL, StrVal '';'', (''fea/root.fea'', 1, 31)), root_lexer\<lparr>pos := 31\<rparr>)"
  "Lexer_next (root_lexer\<lparr>pos := 31\<rparr>) = (Inl StopIteration, root_lexer\<lparr>pos := 31\<rparr>)"
  by code_simp+

lemma root_lexer_paths:
  "filename (root_lexer\<lparr>pos := p\<rparr>) = ''fea/root.fea''"
  "os_path_join (fst (os_path_split ''fea/root.fea'')) ''a.fea'' = ''fea/a.fea''"
  "os_path_join (fst (os_path_split ''fea/root.fea'')) ''b.fea'' = ''fea/b.fea''"
  by (simp add: root_lexer_def Lexer_def, code_simp, code_simp)

section \<open>Strings\<close>

text \<open>
  \<open>closing_quote t p q\<close>: in the text \<open>t\<close> with a double quote at position \<open>p\<close>, position
  \<open>q\<close> holds the closing quote: it is a double quote after \<open>p\<close>, and the text strictly
  between the two positions holds no double quote, carriage return or line feed.
\<close>

definition closing_quote :: "string \<Rightarrow> nat \<Rightarrow> nat \<Rightarrow> bool" where
  "closing_quote t p q =
     (p < q \<and> q < length t \<and> t ! q = CHR 0x22 \<and>
      list_all (\<lambda>c. c \<notin> set ([CHR 0x22] @ CHAR_NEWLINE)) (slice t (Suc p) q))"

lemma list_all_slice:
  "b \<le> length t \<Longrightarrow> list_all P (slice t a b) = (\<forall>k. a \<le> k \<and> k < b \<longrightarrow> P (t ! k))"
proof -
  assume b: "b \<le> length t"
  have "list_all P (slice t a b) = (\<forall>i < b - a. P (t ! (a + i)))"
    using b by (auto simp: slice_def list_all_length)
  also have "\<dots> = (\<forall>k. a \<le> k \<and> k < b \<longrightarrow> P (t ! k))"
  proof
    assume h: "\<forall>i < b - a. P (t ! (a + i))"
    show "\<forall>k. a \<le> k \<and> k < b \<longrightarrow> P (t ! k)"
    proof (intro allI impI)
      fix k assume "a \<le> k \<and> k < b"
      then have "k - a < b - a" "a + (k - a) = k" by auto
      with h show "P (t ! k)" by metis
    qed
  next
    assume "\<forall>k. a \<le> k \<and> k < b \<longrightarrow> P (t ! k)"
    then show "\<forall>i < b - a. P (t ! (a + i))" by auto
  qed
  finally show ?thesis .
qed

lemma scan_until_loop_first:
  "p \<le> q \<Longrightarrow> q < length t \<Longrightarrow> t ! q \<in> set stop_at \<Longrightarrow>
   (\<forall>k. p \<le> k \<and> k < q \<longrightarrow> t ! k \<notin> set stop_at) \<Longrightarrow> scan_until_loop stop_at t p = q"
proof (induction stop_at t p rule: scan_until_loop.induct)
  case (1 stop_at t p)
  show ?case
  proof (cases "p = q")
    case True
    then show ?thesis using 1(3,4) by (subst scan_until_loop.simps) simp
  next
    case False
    then have lt: "p < q" using 1(2) by simp
    then have n: "t ! p \<notin> set stop_at" "p < length t" using 1(3,5) by auto
    have "scan_until_loop stop_at t (Suc p) = q"
      using 1(1) [OF n(2) n(1)] lt 1(3,4,5) by auto
    then show ?thesis using n by (subst scan_until_loop.simps) simp
  qed
qed

lemma scan_until_loop_skipped:
  "p \<le> k \<Longrightarrow> k < scan_until_loop stop_at t p \<Longrightarrow> t ! k \<notin> set stop_at"
proof (induction stop_at t p rule: scan_until_loop.induct)
  case (1 stop_at t p)
  show ?case
  proof (cases "p < length t \<and> t ! p \<notin> set stop_at")
    case True
    then have r: "scan_until_loop stop_at t p = scan_until_loop stop_at t (Suc p)"
      by (subst scan_until_loop.simps) simp
    show ?thesis
    proof (cases "k = p")
      case True
      then show ?thesis using \<open>p < length t \<and> t ! p \<notin> set stop_at\<close> by simp
    next
      case False
      then show ?thesis using 1 True r by auto
    qed
  next
    case False
    then have "scan_until_loop stop_at t p = p"
      by (subst scan_until_loop.simps) auto
    then show ?thesis using 1(2,3) by simp
  qed
qed

lemma scan_token_string:
  assumes "mode s = MODE_NORMAL" "pos s < length (text s)" "text s ! pos s = CHR 0x22"
  shows "scan_token s = scan_string s (pos s) (here s)"
  using assms
  by (simp add: scan_token_def scan_normal_def scan_number_def and_in_def here_def
                CHAR_NAME_START_def CHAR_LETTER_def CHAR_DIGIT_def CHAR_SYMBOL_def)

lemma scan_string_closed:
  assumes "pos s < length (text s)" "closing_quote (text s) (pos s) q"
  shows "scan_string s start loc =
           (Inr (STRING, StrVal (slice (text s) (Suc start) q), loc), s\<lparr>pos := Suc q\<rparr>)"
proof -
  have q: "pos s < q" "q < length (text s)" "text s ! q = CHR 0x22"
    using assms(2) by (simp_all add: closing_quote_def)
  have "\<forall>k. Suc (pos s) \<le> k \<and> k < q \<longrightarrow> text s ! k \<notin> set ([CHR 0x22] @ CHAR_NEWLINE)"
    using assms(2) q list_all_slice [of q "text s" _ "Suc (pos s)"]
    by (simp add: closing_quote_def)
  then have "scan_until_loop ([CHR 0x22] @ CHAR_NEWLINE) (text s) (Suc (pos s)) = q"
    using q by (intro scan_until_loop_first) simp_all
  then show ?thesis
    using q by (simp add: scan_string_def Let_def text_length_def)
qed

lemma scan_string_open:
  assumes "pos s < length (text s)" "\<forall>q. \<not> closing_quote (text s) (pos s) q"
  shows "\<exists>p'. scan_string s start loc =
           (Inl (FeatureLibError MSG_UNTERMINATED_STRING loc), s\<lparr>pos := p'\<rparr>)"
proof -
  let ?stop = "[CHR 0x22] @ CHAR_NEWLINE"
  let ?r = "scan_until_loop ?stop (text s) (Suc (pos s))"
  have "\<not> (?r < length (text s) \<and> text s ! ?r = CHR 0x22)"
  proof
    assume h: "?r < length (text s) \<and> text s ! ?r = CHR 0x22"
    have "pos s < ?r" by simp
    moreover have "\<forall>k. Suc (pos s) \<le> k \<and> k < ?r \<longrightarrow> text s ! k \<notin> set ?stop"
      using scan_until_loop_skipped [of "Suc (pos s)" _ ?stop "text s"] by blast
    then have "list_all (\<lambda>c. c \<notin> set ?stop) (slice (text s) (Suc (pos s)) ?r)"
      using h list_all_slice [of ?r "text s" "\<lambda>c. c \<notin> set ?stop" "Suc (pos s)"] by simp
    ultimately have "closing_quote (text s) (pos s) ?r"
      using h by (simp add: closing_quote_def)
    then show False using assms(2) by blast
  qed
  then show ?thesis
    by (auto simp: scan_string_def Let_def text_length_def scan_until_def)
qed


section \<open>The claims\<close>

subsection \<open>Inputs on which the lexer departs from its specification\<close>

text \<open>
  Claim C2. After the name \<^verbatim>\<open>include\<close> the including lexer pulls the next token from
  the same lexer and is to fail with a \<^verbatim>\<open>FeatureLibError\<close> when it is not a file name, also
  when the buffer ends right after the name. On the text \<^verbatim>\<open>include\<close> the second
  \<^verbatim>\<open>lexer.next()\<close> (line 178) raises \<^verbatim>\<open>StopIteration\<close>, which \<^verbatim>\<open>__next__\<close> does not catch
  there: the call ends the token stream as if the input were exhausted, with the lexer still
  on the stack, and it does so even when an including file below it has tokens left
  (here \<^verbatim>\<open>x y\<close>).
\<close>

theorem C2_include_at_end_of_buffer:
  "IncludingLexer_next fs [Lexer ''include'' f] =
     (Inl StopIteration, [(Lexer ''include'' f)\<lparr>pos := 7, mode := MODE_FILENAME\<rparr>]) \<and>
   IncludingLexer_next fs [Lexer ''x y'' q, Lexer ''include'' f] =
     (Inl StopIteration,
      [Lexer ''x y'' q, (Lexer ''include'' f)\<lparr>pos := 7, mode := MODE_FILENAME\<rparr>])"
  by code_simp

text \<open>
  Claim C4. Every failure is to be a \<^verbatim>\<open>FeatureLibError\<close> with a message and a location.
  On the text \<^verbatim>\<open>0x\<close> the lexer calls \<^verbatim>\<open>int("0x", 16)\<close> (line 123), whose \<^verbatim>\<open>ValueError\<close>
  nothing catches: it leaves \<^verbatim>\<open>next_\<close>, the public \<^verbatim>\<open>next\<close> and the including lexer as it
  is. On the text \<^verbatim>\<open>0\<close> the test \<^verbatim>\<open>next_char in "xX"\<close> (line 120) is made with
  \<^verbatim>\<open>next_char = None\<close> and raises \<^verbatim>\<open>TypeError\<close>.
\<close>

theorem C4_conversion_and_type_errors_escape:
  "next_raw (Lexer ''0x'' f) = (Inl ValueError, (Lexer ''0x'' f)\<lparr>pos := 2\<rparr>) \<and>
   fst (Lexer_next (Lexer ''0x'' f)) = Inl ValueError \<and>
   fst (IncludingLexer_next fs [Lexer ''0x'' f]) = Inl ValueError \<and>
   fst (IncludingLexer_next fs [Lexer ''0'' f]) = Inl TypeError"
  by code_simp

text \<open>
  Claim C7. A token's location is to point at its first character, the line being
  incremented once for every newline sequence. The file name of an include statement is
  scanned up to the closing parenthesis by \<^verbatim>\<open>scan_until_(")")\<close> (line 85), which runs over
  line terminators without counting them, unlike the scanning of strings and comments,
  which stops at them. On the text \<^verbatim>\<open>include(a\<close>, line feed, \<^verbatim>\<open>b) x\<close> the name \<^verbatim>\<open>x\<close>, the
  fourth character of the second line, is located at line 1, column 14. The last
  conjunct is the same line feed outside a file name: the token after it is at line 2,
  column 1.
\<close>

theorem C7_line_terminator_in_file_name:
  "fst (next_raw (Lexer (''include(a'' @ [CHR 0x0A] @ ''b) x'') f)) =
     Inr (NAME, StrVal ''include'', (f, 1, 1)) \<and>
   fst (next_raw (snd (next_raw (Lexer (''include(a'' @ [CHR 0x0A] @ ''b) x'') f)))) =
     Inr (FILENAME, StrVal (''a'' @ [CHR 0x0A] @ ''b''), (f, 1, 8)) \<and>
   fst (next_raw (snd (next_raw (snd (next_raw
          (Lexer (''include(a'' @ [CHR 0x0A] @ ''b) x'') f)))))) =
     Inr (NAME, StrVal ''x'', (f, 1, 14)) \<and>
   fst (next_raw (snd (next_raw (snd (next_raw (Lexer (''a'' @ [CHR 0x0A] @ ''b x'') f)))))) =
     Inr (NAME, StrVal ''b'', (f, 2, 1))"
  by code_simp

text \<open>
  Claim C9. The text \<^verbatim>\<open>-7\<close> is one number token of value -7, and a \<^verbatim>\<open>-\<close> that no digit
  follows is to be a symbol token. It is one when another character follows (\<^verbatim>\<open>-a\<close>);
  when the \<^verbatim>\<open>-\<close> is the last character of the buffer, the test
  \<^verbatim>\<open>next_char in Lexer.CHAR_DIGIT_\<close> (line 127) is made with \<^verbatim>\<open>next_char = None\<close> and
  raises \<^verbatim>\<open>TypeError\<close>, which reaches the caller of the including lexer.
\<close>

theorem C9_minus_at_end_of_buffer:
  "next_raw (Lexer ''-7'' f) =
     (Inr (NUMBER, IntVal (- 7), (f, 1, 1)), (Lexer ''-7'' f)\<lparr>pos := 2\<rparr>) \<and>
   next_raw (Lexer ''-a'' f) =
     (Inr (SYMBOL, StrVal ''-'', (f, 1, 1)), (Lexer ''-a'' f)\<lparr>pos := 1\<rparr>) \<and>
   next_raw (Lexer ''-'' f) = (Inl TypeError, Lexer ''-'' f) \<and>
   fst (IncludingLexer_next fs [Lexer ''-'' f]) = Inl TypeError"
  by code_simp

subsection \<open>The stack of lexers\<close>

text \<open>
  Claim C3, as the source has it. The stack of the including lexer never holds more than
  five lexers: the constructor builds a stack of one; a call of \<^verbatim>\<open>__next__\<close> on a stack of
  at most five leaves at most five; and an include statement (the name \<^verbatim>\<open>include\<close>, a file
  name, a semicolon) met when the stack holds five lexers raises
  \<^verbatim>\<open>FeatureLibError("Too many recursive includes")\<close> at the location of the file name token,
  the stack keeping its five lexers. The root file's lexer is one of the five, so the
  limit on nesting is four, not five: a chain of exactly four nested includes is read to
  its end (the token of the innermost file, then the end of the stream, with five lexers
  on the stack in between), while a chain of five nested includes fails with that error at
  the file name in the fourth included file, and so does a chain of six.
\<close>

theorem C3_stack_depth_at_most_five:
  "(IncludingLexer fs root = Inr ls0 \<longrightarrow> length ls0 = 1) \<and>
   (length ls \<le> 5 \<longrightarrow> length (snd (IncludingLexer_next fs ls)) \<le> 5) \<and>
   (length ls = 5 \<and>
    Lexer_next (last ls) = (Inr (NAME, StrVal ''include'', loc), l1) \<and>
    Lexer_next l1 = (Inr (FILENAME, StrVal fname, floc), l2) \<and>
    Lexer_next l2 = (Inr (SYMBOL, StrVal '';'', sloc), l3) \<longrightarrow>
    IncludingLexer_next fs ls =
      (Inl (FeatureLibError ''Too many recursive includes'' floc), butlast ls @ [l3])) \<and>
   fst (IncludingLexer_next (chain_files four_nested)
          (stack_of (IncludingLexer (chain_files four_nested) ''root''))) =
     Inr (NAME, StrVal ''leaf'', (''i4'', 1, 1)) \<and>
   length (snd (IncludingLexer_next (chain_files four_nested)
                  (stack_of (IncludingLexer (chain_files four_nested) ''root'')))) = 5 \<and>
   IncludingLexer_next (chain_files four_nested)
     (snd (IncludingLexer_next (chain_files four_nested)
             (stack_of (IncludingLexer (chain_files four_nested) ''root'')))) = (Inl StopIteration, []) \<and>
   fst (IncludingLexer_next (chain_files five_nested)
          (stack_of (IncludingLexer (chain_files five_nested) ''root''))) =
     Inl (FeatureLibError ''Too many recursive includes'' (''i4'', 1, 8)) \<and>
   length (snd (IncludingLexer_next (chain_files five_nested)
                  (stack_of (IncludingLexer (chain_files five_nested) ''root'')))) = 5 \<and>
   fst (IncludingLexer_next (chain_files six_nested)
          (stack_of (IncludingLexer (chain_files six_nested) ''root''))) =
     Inl (FeatureLibError ''Too many recursive includes'' (''i4'', 1, 8)) \<and>
   length (snd (IncludingLexer_next (chain_files six_nested)
                  (stack_of (IncludingLexer (chain_files six_nested) ''root'')))) = 5"
proof -
  have init: "IncludingLexer fs root = Inr ls0 \<longrightarrow> length ls0 = 1"
    by (auto simp: IncludingLexer_def split: sum.splits)
  have inv: "length ls \<le> 5 \<longrightarrow> length (snd (IncludingLexer_next fs ls)) \<le> 5"
    using IncludingLexer_next_length [of fs ls] by auto
  have deep: "length ls = 5 \<and>
    Lexer_next (last ls) = (Inr (NAME, StrVal ''include'', loc), l1) \<and>
    Lexer_next l1 = (Inr (FILENAME, StrVal fname, floc), l2) \<and>
    Lexer_next l2 = (Inr (SYMBOL, StrVal '';'', sloc), l3) \<longrightarrow>
    IncludingLexer_next fs ls =
      (Inl (FeatureLibError ''Too many recursive includes'' floc), butlast ls @ [l3])"
  proof (intro impI, elim conjE)
    assume l: "length ls = 5" and a: "Lexer_next (last ls) = (Inr (NAME, StrVal ''include'', loc), l1)"
      and b: "Lexer_next l1 = (Inr (FILENAME, StrVal fname, floc), l2)"
      and c: "Lexer_next l2 = (Inr (SYMBOL, StrVal '';'', sloc), l3)"
    from l have "ls \<noteq> []" "5 \<le> length ls" by auto
    then show "IncludingLexer_next fs ls =
      (Inl (FeatureLibError ''Too many recursive includes'' floc), butlast ls @ [l3])"
      using a b c by (rule IncludingLexer_next_too_deep)
  qed
  show ?thesis
    using init inv deep four_nested_run five_nested_run six_nested_run by (intro conjI)
qed

theorem C3_stack_depth_at_most_five_witness:
  "IncludingLexer (chain_files five_nested) ''root'' = Inr [Lexer ''include(i1);'' ''root''] \<and>
   length [Lexer ''include(i1);'' ''root''] = 1 \<and>
   length deep_stack = 5 \<and>
   length (snd (IncludingLexer_next (chain_files five_nested) deep_stack)) \<le> 5 \<and>
   Lexer_next (last deep_stack) =
     (Inr (NAME, StrVal ''include'', (''i4'', 1, 1)),
      (Lexer ''include(i5);'' ''i4'')\<lparr>pos := 7, mode := MODE_FILENAME\<rparr>) \<and>
   IncludingLexer_next (chain_files five_nested) deep_stack =
     (Inl (FeatureLibError ''Too many recursive includes'' (''i4'', 1, 8)),
      butlast deep_stack @ [(Lexer ''include(i5);'' ''i4'')\<lparr>pos := 12\<rparr>])"
proof -
  have a: "IncludingLexer (chain_files five_nested) ''root'' = Inr [Lexer ''include(i1);'' ''root'']"
    by code_simp
  have l: "length deep_stack = 5" by (simp add: deep_stack_def)
  have t1: "Lexer_next (last deep_stack) =
     (Inr (NAME, StrVal ''include'', (''i4'', 1, 1)),
      (Lexer ''include(i5);'' ''i4'')\<lparr>pos := 7, mode := MODE_FILENAME\<rparr>)"
    by code_simp
  have t2: "Lexer_next ((Lexer ''include(i5);'' ''i4'')\<lparr>pos := 7, mode := MODE_FILENAME\<rparr>) =
     (Inr (FILENAME, StrVal ''i5'', (''i4'', 1, 8)), (Lexer ''include(i5);'' ''i4'')\<lparr>pos := 11\<rparr>)"
    by code_simp
  have t3: "Lexer_next ((Lexer ''include(i5);'' ''i4'')\<lparr>pos := 11\<rparr>) =
     (Inr (SYMBOL, StrVal '';'', (''i4'', 1, 12)), (Lexer ''include(i5);'' ''i4'')\<lparr>pos := 12\<rparr>)"
    by code_simp
  show ?thesis
    using C3_stack_depth_at_most_five
      [of "chain_files five_nested" "''root''" "[Lexer ''include(i1);'' ''root'']" deep_stack
          "(''i4'', 1, 1)" "(Lexer ''include(i5);'' ''i4'')\<lparr>pos := 7, mode := MODE_FILENAME\<rparr>"
          "''i5''" "(''i4'', 1, 8)" "(Lexer ''include(i5);'' ''i4'')\<lparr>pos := 11\<rparr>"
          "(''i4'', 1, 12)" "(Lexer ''include(i5);'' ''i4'')\<lparr>pos := 12\<rparr>"]
      a l t1 t2 t3
    by simp
qed

text \<open>
  Claim C3 as stated fails in its last clause, which has a chain of exactly five nested
  includes succeed: in \<open>five_nested\<close> the root and the files \<^verbatim>\<open>i1\<close> to \<^verbatim>\<open>i4\<close> each hold one
  include statement, five in all, and the first call of \<^verbatim>\<open>__next__\<close> raises
  \<^verbatim>\<open>Too many recursive includes\<close> at the file name in \<^verbatim>\<open>i4\<close> instead of returning the token
  of \<^verbatim>\<open>i5\<close>.
\<close>

theorem C3_counterexample:
  "map (chain_files five_nested) [''root'', ''i1'', ''i2'', ''i3'', ''i4'', ''i5''] =
     [FileText ''include(i1);'', FileText ''include(i2);'', FileText ''include(i3);'',
      FileText ''include(i4);'', FileText ''include(i5);'', FileText ''leaf''] \<and>
   IncludingLexer (chain_files five_nested) ''root'' = Inr [Lexer ''include(i1);'' ''root''] \<and>
   fst (IncludingLexer_next (chain_files five_nested) [Lexer ''include(i1);'' ''root'']) =
     Inl (FeatureLibError ''Too many recursive includes'' (''i4'', 1, 8))"
  by code_simp

subsection \<open>Locations of errors\<close>

text \<open>
  When the active lexer yields a well-formed include statement (the name \<^verbatim>\<open>include\<close>, a
  file name token, a semicolon) and opening the file it names, resolved against the
  directory of the including file, raises \<^verbatim>\<open>IOError\<close>, \<^verbatim>\<open>__next__\<close> raises a
  \<^verbatim>\<open>FeatureLibError\<close> whose location is the location of the file name token, and that
  location names the including file. The message is the text of the \<^verbatim>\<open>IOError\<close>, or
  \<^verbatim>\<open>Too many recursive includes\<close> when the stack already holds five lexers (the depth is
  tested before the file is opened).
\<close>

lemma include_open_error_location:
  assumes "ls \<noteq> []"
    and "Lexer_next (last ls) = (Inr (NAME, StrVal ''include'', loc), l1)"
    and "Lexer_next l1 = (Inr (FILENAME, StrVal fname, floc), l2)"
    and "Lexer_next l2 = (Inr (SYMBOL, StrVal '';'', sloc), l3)"
    and "fs (os_path_join (fst (os_path_split (filename (last ls)))) fname) = IOError msg"
  shows "IncludingLexer_next fs ls =
           (Inl (FeatureLibError
                   (if 5 \<le> length ls then ''Too many recursive includes'' else msg) floc),
            butlast ls @ [l3]) \<and>
         fst floc = filename (last ls)"
proof -
  have f1: "filename l1 = filename (last ls)" using Lexer_next_token(2) [OF assms(2)] .
  have f2: "filename l2 = filename l1" using Lexer_next_token(2) [OF assms(3)] .
  have f3: "filename l3 = filename l2" using Lexer_next_token(2) [OF assms(4)] .
  have named: "fst floc = filename l1"
    using Lexer_next_named [of l1] assms(3) by simp
  have inc: "include_statement fs (length ls) l1 =
    Inl (FeatureLibError (if 5 \<le> length ls then ''Too many recursive includes'' else msg) floc, l3)"
    using assms(3,4,5) f1 f2 f3
    by (simp add: include_statement_def make_lexer_def Let_def)
  show ?thesis
    using IncludingLexer_next_unfold(5) [OF assms(1,2) inc] named f1 by simp
qed

definition unreadable_files :: "string \<Rightarrow> io_result" where
  "unreadable_files p =
     (if p = ''fea/bad.fea'' then DecodeError else IOError ''No such file or directory'')"

text \<open>
  Claim C6. An include statement whose file cannot be opened or read is to fail with a
  \<^verbatim>\<open>FeatureLibError\<close> at the location of the file name token. \<^verbatim>\<open>make_lexer_\<close> has both the
  opening and \<^verbatim>\<open>f.read()\<close> inside its \<^verbatim>\<open>try\<close>, but catches only \<^verbatim>\<open>IOError\<close> (line 200).
  For the file \<^verbatim>\<open>fea/bad.fea\<close>, which opens but whose bytes are not UTF-8, the
  \<^verbatim>\<open>UnicodeDecodeError\<close> of \<^verbatim>\<open>read()\<close> leaves \<^verbatim>\<open>__next__\<close> as it is, with no location;
  for the missing file \<^verbatim>\<open>fea/gone.fea\<close> the same statement raises the
  \<^verbatim>\<open>FeatureLibError\<close> at the file name token, line 1, column 8 of the including file.
\<close>

theorem C6_undecodable_include_escapes:
  "IncludingLexer_next unreadable_files [Lexer ''include(bad.fea);'' ''fea/root.fea''] =
     (Inl UnicodeDecodeError, [(Lexer ''include(bad.fea);'' ''fea/root.fea'')\<lparr>pos := 17\<rparr>]) \<and>
   IncludingLexer_next unreadable_files [Lexer ''include(gone.fea);'' ''fea/root.fea''] =
     (Inl (FeatureLibError ''No such file or directory'' (''fea/root.fea'', 1, 8)),
      [(Lexer ''include(gone.fea);'' ''fea/root.fea'')\<lparr>pos := 18\<rparr>])"
  by code_simp

text \<open>
  Claim C10. Constructing an including lexer over a root file that cannot be opened raises
  a \<^verbatim>\<open>FeatureLibError\<close> at \<^verbatim>\<open>(filename, 0, 0)\<close>. Everywhere else lines and columns are at
  least 1: the constructor starts with a well-formed lexer (line 1, line start 0, position
  0), \<^verbatim>\<open>__next__\<close> keeps every lexer of the stack well formed, and on such a stack the
  location of every token it returns and of every \<^verbatim>\<open>FeatureLibError\<close> it raises has a line
  and a column of at least 1.
\<close>

theorem C10_root_open_error_location:
  "(fs root = IOError msg \<longrightarrow> IncludingLexer fs root = Inl (FeatureLibError msg (root, 0, 0))) \<and>
   (IncludingLexer fs root = Inr ls0 \<longrightarrow> list_all wf_lexer ls0) \<and>
   (list_all wf_lexer ls \<longrightarrow> list_all wf_lexer (snd (IncludingLexer_next fs ls))) \<and>
   (list_all wf_lexer ls \<and> fst (IncludingLexer_next fs ls) = Inr (token_type, tok, (f, ln, col)) \<longrightarrow>
      1 \<le> ln \<and> 1 \<le> col) \<and>
   (list_all wf_lexer ls \<and> fst (IncludingLexer_next fs ls) = Inl (FeatureLibError m (f, ln, col)) \<longrightarrow>
      1 \<le> ln \<and> 1 \<le> col)"
proof -
  have a: "fs root = IOError msg \<longrightarrow> IncludingLexer fs root = Inl (FeatureLibError msg (root, 0, 0))"
    by (simp add: IncludingLexer_def make_lexer_def)
  have b: "IncludingLexer fs root = Inr ls0 \<longrightarrow> list_all wf_lexer ls0"
    by (auto simp: IncludingLexer_def make_lexer_def split: io_result.splits)
  have c: "list_all wf_lexer ls \<longrightarrow> list_all wf_lexer (snd (IncludingLexer_next fs ls))"
    using IncludingLexer_next_wf [of ls fs] by simp
  have d: "list_all wf_lexer ls \<and> fst (IncludingLexer_next fs ls) = Inr (token_type, tok, (f, ln, col)) \<longrightarrow>
      1 \<le> ln \<and> 1 \<le> col"
    using IncludingLexer_next_wf [of ls fs] by (auto simp: one_based_def)
  have e: "list_all wf_lexer ls \<and> fst (IncludingLexer_next fs ls) = Inl (FeatureLibError m (f, ln, col)) \<longrightarrow>
      1 \<le> ln \<and> 1 \<le> col"
    using IncludingLexer_next_wf [of ls fs] by (auto simp: one_based_def)
  show ?thesis using a b c d e by (intro conjI)
qed

theorem C10_root_open_error_location_witness:
  "chain_files four_nested ''missing'' = IOError ''No such file or directory'' \<and>
   IncludingLexer (chain_files four_nested) ''missing'' =
     Inl (FeatureLibError ''No such file or directory'' (''missing'', 0, 0)) \<and>
   IncludingLexer (chain_files four_nested) ''root'' = Inr [Lexer ''include(i1);'' ''root''] \<and>
   list_all wf_lexer [Lexer ''include(i1);'' ''root''] \<and>
   list_all wf_lexer [Lexer ''a b'' ''f'', Lexer ''include(missing);'' ''g''] \<and>
   list_all wf_lexer
     (snd (IncludingLexer_next (chain_files four_nested)
             [Lexer ''a b'' ''f'', Lexer ''include(missing);'' ''g''])) \<and>
   fst (IncludingLexer_next (chain_files four_nested) [Lexer ''include(i1);'' ''root'']) =
     Inr (NAME, StrVal ''leaf'', (''i4'', 1, 1)) \<and>
   fst (IncludingLexer_next (chain_files four_nested)
          [Lexer ''a b'' ''f'', Lexer ''include(missing);'' ''g'']) =
     Inl (FeatureLibError ''No such file or directory'' (''g'', 1, 8)) \<and>
   (1::int) \<le> 1 \<and> (1::int) \<le> 8"
proof -
  have a: "chain_files four_nested ''missing'' = IOError ''No such file or directory''"
    by code_simp
  have b: "IncludingLexer (chain_files four_nested) ''root'' = Inr [Lexer ''include(i1);'' ''root'']"
    by code_simp
  have c: "list_all wf_lexer [Lexer ''a b'' ''f'', Lexer ''include(missing);'' ''g'']"
    by simp
  have d: "fst (IncludingLexer_next (chain_files four_nested) [Lexer ''include(i1);'' ''root'']) =
     Inr (NAME, StrVal ''leaf'', (''i4'', 1, 1))"
    by code_simp
  have e: "fst (IncludingLexer_next (chain_files four_nested)
          [Lexer ''a b'' ''f'', Lexer ''include(missing);'' ''g'']) =
     Inl (FeatureLibError ''No such file or directory'' (''g'', 1, 8))"
    by code_simp
  show ?thesis
    using a b c d e
      C10_root_open_error_location [of "chain_files four_nested" "''missing''"
        "''No such file or directory''" "[Lexer ''include(i1);'' ''root'']"
        "[Lexer ''a b'' ''f'', Lexer ''include(missing);'' ''g'']"
        NAME "StrVal ''leaf''" "''i4''" 1 1 "''No such file or directory''"]
      C10_root_open_error_location [of "chain_files four_nested" "''root''"
        "''No such file or directory''" "[Lexer ''include(i1);'' ''root'']"
        "[Lexer ''include(i1);'' ''root'']"
        NAME "StrVal ''leaf''" "''i4''" 1 1 "''No such file or directory''"]
    by simp
qed

subsection \<open>What the caller receives\<close>




text \<open>
  Claim C5. For the root file \<^verbatim>\<open>include(a.fea); include(b.fea);\<close>, with both files present
  and each holding one name token (any text from which the public \<^verbatim>\<open>next()\<close> returns one
  name other than \<^verbatim>\<open>include\<close> and then the end of input), the including lexer returns
  exactly the name of \<^verbatim>\<open>a.fea\<close>, then the name of \<^verbatim>\<open>b.fea\<close>, then the end of the stream
  with an empty stack: nothing of the two include statements is returned. In general, from
  the stack the constructor builds, whose lexers are in normal mode, a token returned by
  \<^verbatim>\<open>__next__\<close> is never a file name and never the name \<^verbatim>\<open>include\<close>, and the lexers of the
  stack are in normal mode again.
\<close>

theorem C5_include_statements_are_transparent:
  assumes root: "fs ''fea/root.fea'' = FileText root_text"
    and a: "fs ''fea/a.fea'' = FileText text_a"
      "Lexer_next (Lexer text_a ''fea/a.fea'') = (Inr (NAME, StrVal name_a, loc_a), lexer_a)"
      "Lexer_next lexer_a = (Inl StopIteration, lexer_a')" "name_a \<noteq> ''include''"
    and b: "fs ''fea/b.fea'' = FileText text_b"
      "Lexer_next (Lexer text_b ''fea/b.fea'') = (Inr (NAME, StrVal name_b, loc_b), lexer_b)"
      "Lexer_next lexer_b = (Inl StopIteration, lexer_b')" "name_b \<noteq> ''include''"
  shows "IncludingLexer fs ''fea/root.fea'' = Inr [root_lexer] \<and>
         IncludingLexer_next fs [root_lexer] =
           (Inr (NAME, StrVal name_a, loc_a), [root_lexer\<lparr>pos := 15\<rparr>, lexer_a]) \<and>
         IncludingLexer_next fs [root_lexer\<lparr>pos := 15\<rparr>, lexer_a] =
           (Inr (NAME, StrVal name_b, loc_b), [root_lexer\<lparr>pos := 31\<rparr>, lexer_b]) \<and>
         IncludingLexer_next fs [root_lexer\<lparr>pos := 31\<rparr>, lexer_b] = (Inl StopIteration, []) \<and>
         (IncludingLexer fs' r = Inr ls0 \<longrightarrow> list_all normal ls0) \<and>
         (list_all normal ls \<and> IncludingLexer_next fs' ls = (Inr (token_type, tok, loc), ls') \<longrightarrow>
            token_type \<noteq> FILENAME \<and> (token_type, tok) \<noteq> (NAME, StrVal ''include'') \<and>
            list_all normal ls')"
proof -
  have init: "IncludingLexer fs ''fea/root.fea'' = Inr [root_lexer]"
    using root by (simp add: IncludingLexer_def make_lexer_def root_lexer_def)
  have inc_a: "include_statement fs (length [root_lexer]) (root_lexer\<lparr>pos := 7, mode := MODE_FILENAME\<rparr>) =
      Inr (root_lexer\<lparr>pos := 15\<rparr>, Lexer text_a ''fea/a.fea'')"
    using a(1) by (simp add: include_statement_def root_lexer_steps root_lexer_paths make_lexer_def)
  have inc_b: "include_statement fs (length [root_lexer\<lparr>pos := 15\<rparr>])
      (root_lexer\<lparr>pos := 23, mode := MODE_FILENAME\<rparr>) =
      Inr (root_lexer\<lparr>pos := 31\<rparr>, Lexer text_b ''fea/b.fea'')"
    using b(1) by (simp add: include_statement_def root_lexer_steps root_lexer_paths make_lexer_def)
  have first: "IncludingLexer_next fs [root_lexer] =
           (Inr (NAME, StrVal name_a, loc_a), [root_lexer\<lparr>pos := 15\<rparr>, lexer_a])"
  proof -
    have "IncludingLexer_next fs [root_lexer] =
          IncludingLexer_next fs [root_lexer\<lparr>pos := 15\<rparr>, Lexer text_a ''fea/a.fea'']"
      using IncludingLexer_next_unfold(6) [of "[root_lexer]", OF _ _ inc_a]
      by (simp add: root_lexer_steps)
    also have "\<dots> = (Inr (NAME, StrVal name_a, loc_a), [root_lexer\<lparr>pos := 15\<rparr>, lexer_a])"
      using IncludingLexer_next_unfold(4)
              [of "[root_lexer\<lparr>pos := 15\<rparr>, Lexer text_a ''fea/a.fea'']" NAME "StrVal name_a" loc_a
                  lexer_a fs] a(2,4)
      by simp
    finally show ?thesis .
  qed
  have second: "IncludingLexer_next fs [root_lexer\<lparr>pos := 15\<rparr>, lexer_a] =
           (Inr (NAME, StrVal name_b, loc_b), [root_lexer\<lparr>pos := 31\<rparr>, lexer_b])"
  proof -
    have "IncludingLexer_next fs [root_lexer\<lparr>pos := 15\<rparr>, lexer_a] =
          IncludingLexer_next fs [root_lexer\<lparr>pos := 15\<rparr>]"
      using IncludingLexer_next_unfold(2) [of "[root_lexer\<lparr>pos := 15\<rparr>, lexer_a]" lexer_a' fs] a(3)
      by simp
    also have "\<dots> = IncludingLexer_next fs [root_lexer\<lparr>pos := 31\<rparr>, Lexer text_b ''fea/b.fea'']"
      using IncludingLexer_next_unfold(6) [of "[root_lexer\<lparr>pos := 15\<rparr>]", OF _ _ inc_b]
      by (simp add: root_lexer_steps)
    also have "\<dots> = (Inr (NAME, StrVal name_b, loc_b), [root_lexer\<lparr>pos := 31\<rparr>, lexer_b])"
      using IncludingLexer_next_unfold(4)
              [of "[root_lexer\<lparr>pos := 31\<rparr>, Lexer text_b ''fea/b.fea'']" NAME "StrVal name_b" loc_b
                  lexer_b fs] b(2,4)
      by simp
    finally show ?thesis .
  qed
  have third: "IncludingLexer_next fs [root_lexer\<lparr>pos := 31\<rparr>, lexer_b] = (Inl StopIteration, [])"
  proof -
    have "IncludingLexer_next fs [root_lexer\<lparr>pos := 31\<rparr>, lexer_b] =
          IncludingLexer_next fs [root_lexer\<lparr>pos := 31\<rparr>]"
      using IncludingLexer_next_unfold(2) [of "[root_lexer\<lparr>pos := 31\<rparr>, lexer_b]" lexer_b' fs] b(3)
      by simp
    also have "\<dots> = IncludingLexer_next fs []"
      using IncludingLexer_next_unfold(2) [of "[root_lexer\<lparr>pos := 31\<rparr>]" "root_lexer\<lparr>pos := 31\<rparr>" fs]
      by (simp add: root_lexer_steps)
    finally show ?thesis by (simp add: IncludingLexer_next_unfold(1))
  qed
  have start: "IncludingLexer fs' r = Inr ls0 \<longrightarrow> list_all normal ls0"
    by (auto simp: IncludingLexer_def make_lexer_def split: io_result.splits)
  have general: "list_all normal ls \<and> IncludingLexer_next fs' ls = (Inr (token_type, tok, loc), ls') \<longrightarrow>
            token_type \<noteq> FILENAME \<and> (token_type, tok) \<noteq> (NAME, StrVal ''include'') \<and>
            list_all normal ls'"
    using IncludingLexer_next_normal [of ls fs'] by (auto simp: no_directive_def)
  show ?thesis using init first second third start general by (intro conjI)
qed

theorem C5_include_statements_are_transparent_witness:
  "IncludingLexer two_includes ''fea/root.fea'' = Inr [root_lexer] \<and>
   IncludingLexer_next two_includes [root_lexer] =
     (Inr (NAME, StrVal ''foo'', (''fea/a.fea'', 1, 1)),
      [root_lexer\<lparr>pos := 15\<rparr>, (Lexer ''foo'' ''fea/a.fea'')\<lparr>pos := 3\<rparr>]) \<and>
   IncludingLexer_next two_includes
     [root_lexer\<lparr>pos := 15\<rparr>, (Lexer ''foo'' ''fea/a.fea'')\<lparr>pos := 3\<rparr>] =
     (Inr (NAME, StrVal ''bar'', (''fea/b.fea'', 2, 1)),
      [root_lexer\<lparr>pos := 31\<rparr>,
       (Lexer (''# second'' @ [CHR 0x0A] @ ''bar'' @ [CHR 0x0A]) ''fea/b.fea'')
         \<lparr>pos := 12, line := 2, line_start := 9\<rparr>]) \<and>
   IncludingLexer_next two_includes
     [root_lexer\<lparr>pos := 31\<rparr>,
      (Lexer (''# second'' @ [CHR 0x0A] @ ''bar'' @ [CHR 0x0A]) ''fea/b.fea'')
        \<lparr>pos := 12, line := 2, line_start := 9\<rparr>] = (Inl StopIteration, []) \<and>
   list_all normal [root_lexer] \<and>
   list_all normal [root_lexer\<lparr>pos := 15\<rparr>, (Lexer ''foo'' ''fea/a.fea'')\<lparr>pos := 3\<rparr>]"
proof -
  let ?B = "Lexer (''# second'' @ [CHR 0x0A] @ ''bar'' @ [CHR 0x0A]) ''fea/b.fea''"
  have r: "two_includes ''fea/root.fea'' = FileText root_text"
    and a1: "two_includes ''fea/a.fea'' = FileText ''foo''"
    and b1: "two_includes ''fea/b.fea'' = FileText (''# second'' @ [CHR 0x0A] @ ''bar'' @ [CHR 0x0A])"
    by (simp_all add: two_includes_def)
  have a2: "Lexer_next (Lexer ''foo'' ''fea/a.fea'') =
      (Inr (NAME, StrVal ''foo'', (''fea/a.fea'', 1, 1)), (Lexer ''foo'' ''fea/a.fea'')\<lparr>pos := 3\<rparr>)"
    by code_simp
  have a3: "Lexer_next ((Lexer ''foo'' ''fea/a.fea'')\<lparr>pos := 3\<rparr>) =
      (Inl StopIteration, (Lexer ''foo'' ''fea/a.fea'')\<lparr>pos := 3\<rparr>)"
    by code_simp
  have b2: "Lexer_next ?B =
      (Inr (NAME, StrVal ''bar'', (''fea/b.fea'', 2, 1)), ?B\<lparr>pos := 12, line := 2, line_start := 9\<rparr>)"
    by code_simp
  have b3: "Lexer_next (?B\<lparr>pos := 12, line := 2, line_start := 9\<rparr>) =
      (Inl StopIteration, ?B\<lparr>pos := 13, line := 3, line_start := 13\<rparr>)"
    by code_simp
  have n: "list_all normal [root_lexer]"
    by (simp add: root_lexer_def)
  show ?thesis
    using C5_include_statements_are_transparent
      [OF r a1 a2 a3 _ b1 b2 b3, of two_includes "''fea/root.fea''" "[root_lexer]" "[root_lexer]"
         NAME "StrVal ''foo''" "(''fea/a.fea'', 1, 1)"
         "[root_lexer\<lparr>pos := 15\<rparr>, (Lexer ''foo'' ''fea/a.fea'')\<lparr>pos := 3\<rparr>]"] n
    by simp
qed

subsection \<open>Strings\<close>

text \<open>
  Claim C8. In normal mode, when the character at the position \<open>p\<close> reached after blanks and
  tabs is a double quote: if a closing quote stands at \<open>q\<close>, before any carriage return,
  line feed or end of the buffer, \<^verbatim>\<open>next_\<close> returns one string token whose value is the
  text strictly between \<open>p\<close> and \<open>q\<close>, located at the opening quote, and the position is
  just after \<open>q\<close>; if there is no closing quote, it raises the
  \<^verbatim>\<open>FeatureLibError\<close> for an unterminated string at the location of the opening quote.
  (In file name mode, entered after the name \<^verbatim>\<open>include\<close>, the lexer asks for a parenthesis
  instead.)
\<close>

theorem C8_string_tokens:
  assumes "mode s = MODE_NORMAL" "pos (scan_over CHAR_WHITESPACE s) = p" "p < length (text s)"
    and "text s ! p = CHR 0x22"
  shows "(closing_quote (text s) p q \<longrightarrow>
            next_raw s =
              (Inr (STRING, StrVal (slice (text s) (Suc p) q),
                    (filename s, line s, int p - int (line_start s) + 1)),
               s\<lparr>pos := Suc q\<rparr>)) \<and>
         ((\<forall>q. \<not> closing_quote (text s) p q) \<longrightarrow>
            (\<exists>p'. next_raw s =
               (Inl (FeatureLibError MSG_UNTERMINATED_STRING
                       (filename s, line s, int p - int (line_start s) + 1)),
                s\<lparr>pos := p'\<rparr>)))"
proof -
  let ?w = "scan_over CHAR_WHITESPACE s"
  have w: "mode ?w = MODE_NORMAL" "pos ?w < length (text ?w)" "text ?w ! pos ?w = CHR 0x22"
    using assms by simp_all
  have n: "next_raw s = scan_string ?w p (filename s, line s, int p - int (line_start s) + 1)"
    using scan_token_string [OF w] assms(2) by (simp add: next_raw_def here_def)
  have upd: "?w\<lparr>pos := x\<rparr> = s\<lparr>pos := x\<rparr>" for x
    by (simp add: scan_over_def)
  have closed: "closing_quote (text s) p q \<longrightarrow>
            next_raw s =
              (Inr (STRING, StrVal (slice (text s) (Suc p) q),
                    (filename s, line s, int p - int (line_start s) + 1)),
               s\<lparr>pos := Suc q\<rparr>)"
  proof
    assume "closing_quote (text s) p q"
    then have "closing_quote (text ?w) (pos ?w) q" using assms(2) by simp
    from scan_string_closed [OF w(2) this, of p] show "next_raw s =
              (Inr (STRING, StrVal (slice (text s) (Suc p) q),
                    (filename s, line s, int p - int (line_start s) + 1)),
               s\<lparr>pos := Suc q\<rparr>)"
      by (simp add: n upd)
  qed
  have opened: "(\<forall>q. \<not> closing_quote (text s) p q) \<longrightarrow>
            (\<exists>p'. next_raw s =
               (Inl (FeatureLibError MSG_UNTERMINATED_STRING
                       (filename s, line s, int p - int (line_start s) + 1)),
                s\<lparr>pos := p'\<rparr>))"
  proof
    assume "\<forall>q. \<not> closing_quote (text s) p q"
    then have "\<forall>q. \<not> closing_quote (text ?w) (pos ?w) q" using assms(2) by simp
    from scan_string_open [OF w(2) this, of p] show "\<exists>p'. next_raw s =
               (Inl (FeatureLibError MSG_UNTERMINATED_STRING
                       (filename s, line s, int p - int (line_start s) + 1)),
                s\<lparr>pos := p'\<rparr>)"
      by (simp add: n upd)
  qed
  show ?thesis using closed opened by (rule conjI)
qed

theorem C8_string_tokens_witness:
  "closing_quote ([CHR 0x22] @ ''hello'' @ [CHR 0x22]) 0 6 \<and>
   next_raw (Lexer ([CHR 0x22] @ ''hello'' @ [CHR 0x22]) ''f'') =
     (Inr (STRING, StrVal ''hello'', (''f'', 1, 1)),
      (Lexer ([CHR 0x22] @ ''hello'' @ [CHR 0x22]) ''f'')\<lparr>pos := 7\<rparr>) \<and>
   (\<forall>q. \<not> closing_quote ([CHR 0x22] @ ''hello'') 0 q) \<and>
   (\<exists>p'. next_raw (Lexer ([CHR 0x22] @ ''hello'') ''f'') =
      (Inl (FeatureLibError MSG_UNTERMINATED_STRING (''f'', 1, 1)),
       (Lexer ([CHR 0x22] @ ''hello'') ''f'')\<lparr>pos := p'\<rparr>))"
proof -
  let ?A = "Lexer ([CHR 0x22] @ ''hello'' @ [CHR 0x22]) ''f''"
  let ?B = "Lexer ([CHR 0x22] @ ''hello'') ''f''"
  have a: "mode ?A = MODE_NORMAL" "pos (scan_over CHAR_WHITESPACE ?A) = 0"
    "0 < length (text ?A)" "text ?A ! 0 = CHR 0x22"
    by code_simp+
  have b: "mode ?B = MODE_NORMAL" "pos (scan_over CHAR_WHITESPACE ?B) = 0"
    "0 < length (text ?B)" "text ?B ! 0 = CHR 0x22"
    by code_simp+
  have c: "closing_quote ([CHR 0x22] @ ''hello'' @ [CHR 0x22]) 0 6"
    by code_simp
  have d: "\<forall>q. \<not> closing_quote ([CHR 0x22] @ ''hello'') 0 q"
  proof (intro allI notI)
    fix q
    assume "closing_quote ([CHR 0x22] @ ''hello'') 0 q"
    then have q: "0 < q" "q < 6" "([CHR 0x22] @ ''hello'') ! q = CHR 0x22"
      by (simp_all add: closing_quote_def)
    then have "q = 1 \<or> q = 2 \<or> q = 3 \<or> q = 4 \<or> q = 5" by arith
    then show False using q(3) by (elim disjE) simp_all
  qed
  have ta: "text ?A = [CHR 0x22] @ ''hello'' @ [CHR 0x22]" "filename ?A = ''f''" "line ?A = 1"
    "line_start ?A = 0"
    and tb: "text ?B = [CHR 0x22] @ ''hello''" "filename ?B = ''f''" "line ?B = 1"
    "line_start ?B = 0"
    by (simp_all add: Lexer_def)
  have s: "slice ([CHR 0x22] @ ''hello'' @ [CHR 0x22]) (Suc 0) 6 = ''hello''"
    by code_simp
  show ?thesis
    using C8_string_tokens [OF a, of 6] C8_string_tokens [OF b, of 0] c d
    unfolding ta tb s
    by simp
qed

end
